theory Spec2Isabelle
  imports Main "HOL-Library.Sublist" "HOL-Library.Char_ord" "HOL-Library.List_Lexorder"
    "HOL-Library.Multiset"
begin

section \<open>Python values and string operations\<close>

text \<open>
  The program is the script \<^verbatim>\<open>generate_arxiv_snapshot.py\<close>. A Python \<^verbatim>\<open>str\<close> is
  represented by its UTF-8 encoding, a \<^typ>\<open>string\<close>: comparing two encodings bytewise
  orders them as Python orders the code points, and an ASCII pattern occurs in the
  encoding exactly where it occurs in the text. A value that may be \<^verbatim>\<open>None\<close> is an
  \<^typ>\<open>'a option\<close>; every exception the script can raise is a value of \<open>pyerr\<close>, and a
  step that may raise returns \<open>pyerr + 'a\<close>.
\<close>

datatype pyerr = AttributeError | TypeError | ValueError | IndexError | ParseError

definition bind_err :: "pyerr + 'a \<Rightarrow> ('a \<Rightarrow> pyerr + 'b) \<Rightarrow> pyerr + 'b" where
  "bind_err m f = (case m of Inl e \<Rightarrow> Inl e | Inr x \<Rightarrow> f x)"

text \<open>Truth value of \<^verbatim>\<open>str | None\<close>: \<^verbatim>\<open>None\<close> and the empty string are false.\<close>

definition truthy :: "string option \<Rightarrow> bool" where
  "truthy v = (case v of None \<Rightarrow> False | Some s \<Rightarrow> s \<noteq> [])"

text \<open>\<^verbatim>\<open>sub in s\<close> on strings.\<close>

definition py_in :: "string \<Rightarrow> string \<Rightarrow> bool" where
  "py_in sub s = sublist sub s"

text \<open>
  \<^verbatim>\<open>s.split(sep)\<close>: the text is scanned from the left, every occurrence of the separator
  found ends a piece and the scan resumes behind it, so occurrences never overlap.
  An empty separator raises \<^verbatim>\<open>ValueError\<close>.
\<close>

function split_from :: "string \<Rightarrow> string \<Rightarrow> string \<Rightarrow> string list" where
  "split_from sep cur [] = [cur]"
| "split_from sep cur (c # cs) =
     (if sep \<noteq> [] \<and> prefix sep (c # cs)
      then cur # split_from sep [] (drop (length sep) (c # cs))
      else split_from sep (cur @ [c]) cs)"
  by pat_completeness auto
termination
  by (relation "measure (\<lambda>(sep, cur, s). length s)") auto

definition py_split :: "string \<Rightarrow> string \<Rightarrow> pyerr + string list" where
  "py_split sep s = (if sep = [] then Inl ValueError else Inr (split_from sep [] s))"

text \<open>\<^verbatim>\<open>xs[-1]\<close>, which raises \<^verbatim>\<open>IndexError\<close> on the empty list.\<close>

definition py_last :: "'a list \<Rightarrow> pyerr + 'a" where
  "py_last xs = (if xs = [] then Inl IndexError else Inr (last xs))"

text \<open>
  \<^verbatim>\<open>s.replace(old, new)\<close>: every occurrence found by the same left-to-right scan is
  replaced. With an empty \<^verbatim>\<open>old\<close> Python puts \<^verbatim>\<open>new\<close> before every character and at
  the end.
\<close>

function replace_from :: "string \<Rightarrow> string \<Rightarrow> string \<Rightarrow> string" where
  "replace_from old new [] = []"
| "replace_from old new (c # cs) =
     (if old \<noteq> [] \<and> prefix old (c # cs)
      then new @ replace_from old new (drop (length old) (c # cs))
      else c # replace_from old new cs)"
  by pat_completeness auto
termination
  by (relation "measure (\<lambda>(old, new, s). length s)") auto

definition py_replace :: "string \<Rightarrow> string \<Rightarrow> string \<Rightarrow> string" where
  "py_replace old new s =
     (if old = [] then new @ concat (map (\<lambda>c. c # new) s) else replace_from old new s)"

text \<open>
  \<^verbatim>\<open>sep.join(xs)\<close> raises \<^verbatim>\<open>TypeError\<close> when an item is not a string; the lists joined
  by the script can hold \<^verbatim>\<open>None\<close>.
\<close>

fun join_strs :: "string \<Rightarrow> string list \<Rightarrow> string" where
  "join_strs sep [] = []"
| "join_strs sep [x] = x"
| "join_strs sep (x # y # ys) = x @ sep @ join_strs sep (y # ys)"

fun all_strs :: "string option list \<Rightarrow> string list option" where
  "all_strs [] = Some []"
| "all_strs (None # xs) = None"
| "all_strs (Some x # xs) = map_option ((#) x) (all_strs xs)"

definition py_join :: "string \<Rightarrow> string option list \<Rightarrow> pyerr + string" where
  "py_join sep xs = (case all_strs xs of None \<Rightarrow> Inl TypeError | Some ys \<Rightarrow> Inr (join_strs sep ys))"

text \<open>
  \<^verbatim>\<open>s.strip()\<close> removes leading and trailing whitespace, where whitespace is every code
  point for which \<^verbatim>\<open>str.isspace\<close> holds; the table lists their UTF-8 encodings.
\<close>

definition whitespace :: "string list" where
  "whitespace =
     [[CHR 0x09], [CHR 0x0A], [CHR 0x0B], [CHR 0x0C], [CHR 0x0D],
      [CHR 0x1C], [CHR 0x1D], [CHR 0x1E], [CHR 0x1F], [CHR 0x20],
      [CHR 0xC2, CHR 0x85], [CHR 0xC2, CHR 0xA0], [CHR 0xE1, CHR 0x9A, CHR 0x80],
      [CHR 0xE2, CHR 0x80, CHR 0x80], [CHR 0xE2, CHR 0x80, CHR 0x81],
      [CHR 0xE2, CHR 0x80, CHR 0x82], [CHR 0xE2, CHR 0x80, CHR 0x83],
      [CHR 0xE2, CHR 0x80, CHR 0x84], [CHR 0xE2, CHR 0x80, CHR 0x85],
      [CHR 0xE2, CHR 0x80, CHR 0x86], [CHR 0xE2, CHR 0x80, CHR 0x87],
      [CHR 0xE2, CHR 0x80, CHR 0x88], [CHR 0xE2, CHR 0x80, CHR 0x89],
      [CHR 0xE2, CHR 0x80, CHR 0x8A], [CHR 0xE2, CHR 0x80, CHR 0xA8],
      [CHR 0xE2, CHR 0x80, CHR 0xA9], [CHR 0xE2, CHR 0x80, CHR 0xAF],
      [CHR 0xE2, CHR 0x81, CHR 0x9F], [CHR 0xE3, CHR 0x80, CHR 0x80]]"

function lstrip_by :: "string list \<Rightarrow> string \<Rightarrow> string" where
  "lstrip_by ws s =
     (case List.find (\<lambda>w. w \<noteq> [] \<and> prefix w s) ws of
        None \<Rightarrow> s
      | Some w \<Rightarrow> lstrip_by ws (drop (length w) s))"
  by pat_completeness auto
termination
proof (relation "measure (\<lambda>(ws, s). length s)")
  show "wf (measure (\<lambda>(ws, s). length s))" by simp
next
  fix ws :: "string list" and s w :: string
  assume "List.find (\<lambda>w. w \<noteq> [] \<and> prefix w s) ws = Some w"
  then have "w \<noteq> []" and "prefix w s"
    by (auto simp: find_Some_iff)
  then have "s \<noteq> []" by auto
  with \<open>w \<noteq> []\<close> show "((ws, drop (length w) s), (ws, s)) \<in> measure (\<lambda>(ws, s). length s)"
    by simp
qed

declare lstrip_by.simps [simp del]

definition py_strip :: "string \<Rightarrow> string" where
  "py_strip s = rev (lstrip_by (map rev whitespace) (rev (lstrip_by whitespace s)))"

text \<open>\<^verbatim>\<open>str(n)\<close> for a non-negative integer, and a number padded with zeros to a width.\<close>

definition digit_char :: "nat \<Rightarrow> char" where
  "digit_char d = ''0123456789'' ! d"

fun str_nat :: "nat \<Rightarrow> string" where
  "str_nat n = (if n < 10 then [digit_char n] else str_nat (n div 10) @ [digit_char (n mod 10)])"

declare str_nat.simps [simp del]

definition zero_pad :: "nat \<Rightarrow> nat \<Rightarrow> string" where
  "zero_pad w n = replicate (w - length (str_nat n)) (CHR ''0'') @ str_nat n"

text \<open>How an f-string renders a value that is a string or \<^verbatim>\<open>None\<close>.\<close>

definition fmt_value :: "string option \<Rightarrow> string" where
  "fmt_value v = (case v of None \<Rightarrow> ''None'' | Some s \<Rightarrow> s)"

text \<open>
  \<^verbatim>\<open>html.escape(s)\<close> with its default \<^verbatim>\<open>quote=True\<close>: five replacements, the ampersand
  first.
\<close>

definition escape :: "string \<Rightarrow> string" where
  "escape s =
     py_replace [CHR 0x27] ''&#x27;''
       (py_replace [CHR 0x22] ''&quot;''
         (py_replace ''>'' ''&gt;''
           (py_replace ''<'' ''&lt;''
             (py_replace ''&'' ''&amp;'' s))))"

section \<open>The parsed feed\<close>

text \<open>
  \<^verbatim>\<open>ET.fromstring\<close> is the XML parser of the standard library; the script sees its
  result, a tree of elements. An element has a qualified tag, attributes, a text that is
  \<^verbatim>\<open>None\<close> when the element is empty, and children in document order.
\<close>

datatype elem = Elem (etag: string) (attrib: "(string \<times> string) list")
  (etext: "string option") (children: "elem list")

text \<open>\<^verbatim>\<open>e.find(path, ns)\<close> and \<^verbatim>\<open>e.findall(path, ns)\<close> for a path that names a child tag.\<close>

definition find_elem :: "string \<Rightarrow> elem \<Rightarrow> elem option" where
  "find_elem t e = List.find (\<lambda>c. etag c = t) (children e)"

definition findall :: "string \<Rightarrow> elem \<Rightarrow> elem list" where
  "findall t e = filter (\<lambda>c. etag c = t) (children e)"

definition get_attr :: "string \<Rightarrow> elem \<Rightarrow> string option" where
  "get_attr k e = map_of (attrib e) k"

text \<open>The prefix \<^verbatim>\<open>atom:\<close> resolved through the namespace table \<^verbatim>\<open>ns\<close>.\<close>

definition atom :: "string \<Rightarrow> string" where
  "atom local = ''{http://www.w3.org/2005/Atom}'' @ local"

record paper =
  title :: string
  summary :: string
  authors :: "string option list"
  published :: "string option"
  updated :: "string option"
  url :: string
  arxiv_id :: "string option"
  categories :: "string option list"

definition MAX_PAPERS_PER_AUTHOR :: nat where
  "MAX_PAPERS_PER_AUTHOR = 20"

fun collect :: "(pyerr + 'a) list \<Rightarrow> pyerr + 'a list" where
  "collect [] = Inr []"
| "collect (Inl e # xs) = Inl e"
| "collect (Inr x # xs) = bind_err (collect xs) (\<lambda>ys. Inr (x # ys))"

text \<open>
  \<^verbatim>\<open>[author.find('atom:name', ns).text for author in entry.findall('atom:author', ns)]\<close>:
  an author element without a name child makes \<^verbatim>\<open>.text\<close> fail on \<^verbatim>\<open>None\<close>.
\<close>

definition author_names :: "elem \<Rightarrow> pyerr + string option list" where
  "author_names entry =
     collect (map (\<lambda>a. case find_elem (atom ''name'') a of
                          None \<Rightarrow> Inl AttributeError
                        | Some n \<Rightarrow> Inr (etext n))
                  (findall (atom ''author'') entry))"

text \<open>\<^verbatim>\<open>x.text.strip()\<close>, which fails when the text is \<^verbatim>\<open>None\<close>.\<close>

definition text_strip :: "elem \<Rightarrow> pyerr + string" where
  "text_strip e = (case etext e of None \<Rightarrow> Inl AttributeError | Some s \<Rightarrow> Inr (py_strip s))"

text \<open>\<^verbatim>\<open>x.text if x is not None else ''\<close>.\<close>

definition text_or_empty :: "elem option \<Rightarrow> string option" where
  "text_or_empty x = (case x of None \<Rightarrow> Some [] | Some e \<Rightarrow> etext e)"

text \<open>
  Lines 90 to 94: \<^verbatim>\<open>id_text\<close> is the text of the id element when there is one (the test
  \<^verbatim>\<open>'/abs/' in url\<close> raises \<^verbatim>\<open>TypeError\<close> when that text is \<^verbatim>\<open>None\<close>), and
  \<^verbatim>\<open>derive_arxiv_id\<close> is the identifier taken from it.
\<close>

definition id_text :: "elem option \<Rightarrow> pyerr + string option" where
  "id_text id_elem =
     (case id_elem of
        None \<Rightarrow> Inr None
      | Some ie \<Rightarrow> (case etext ie of None \<Rightarrow> Inl TypeError | Some u \<Rightarrow> Inr (Some u)))"

definition derive_arxiv_id :: "string \<Rightarrow> pyerr + string option" where
  "derive_arxiv_id u =
     (if py_in ''/abs/'' u
      then bind_err (py_split ''/abs/'' u) (\<lambda>parts. bind_err (py_last parts) (\<lambda>l. Inr (Some l)))
      else Inr None)"

text \<open>
  One pass of the loop body over an entry: an exception, \<^verbatim>\<open>None\<close> when the entry is
  skipped, or the record appended to \<^verbatim>\<open>papers\<close>.
\<close>

definition parse_entry :: "elem \<Rightarrow> pyerr + paper option" where
  "parse_entry entry =
     (let title_elem = find_elem (atom ''title'') entry;
          summary_elem = find_elem (atom ''summary'') entry;
          published_elem = find_elem (atom ''published'') entry;
          updated_elem = find_elem (atom ''updated'') entry;
          id_elem = find_elem (atom ''id'') entry
      in bind_err (author_names entry) (\<lambda>names.
         let cats = map (get_attr ''term'') (findall (atom ''category'') entry)
         in bind_err (id_text id_elem) (\<lambda>u.
            bind_err (case u of None \<Rightarrow> Inr None | Some v \<Rightarrow> derive_arxiv_id v) (\<lambda>aid.
              case (title_elem, u) of
                (Some t, Some v) \<Rightarrow>
                  bind_err (text_strip t) (\<lambda>title_s.
                  bind_err (case summary_elem of None \<Rightarrow> Inr [] | Some s \<Rightarrow> text_strip s)
                    (\<lambda>summary_s.
                       Inr (Some \<lparr>title = title_s, summary = summary_s, authors = names,
                                  published = text_or_empty published_elem,
                                  updated = text_or_empty updated_elem,
                                  url = v, arxiv_id = aid, categories = take 3 cats\<rparr>)))
              | _ \<Rightarrow> Inr None))))"

fun parse_entries :: "elem list \<Rightarrow> paper list \<Rightarrow> pyerr + paper list" where
  "parse_entries [] papers = Inr papers"
| "parse_entries (entry # rest) papers =
     (case parse_entry entry of
        Inl e \<Rightarrow> Inl e
      | Inr None \<Rightarrow> parse_entries rest papers
      | Inr (Some p) \<Rightarrow> parse_entries rest (papers @ [p]))"

text \<open>
  \<^verbatim>\<open>parse_atom_feed\<close>: the whole body is inside \<^verbatim>\<open>try\<close>, and the handler returns the
  empty list. The library parser is the parameter \<open>fromstring\<close>.
\<close>

definition parse_atom_feed :: "(string \<Rightarrow> pyerr + elem) \<Rightarrow> string \<Rightarrow> paper list" where
  "parse_atom_feed fromstring xml_text =
     (case bind_err (fromstring xml_text) (\<lambda>root.
             parse_entries (take MAX_PAPERS_PER_AUTHOR (findall (atom ''entry'') root)) [])
      of Inl e \<Rightarrow> [] | Inr papers \<Rightarrow> papers)"

section \<open>Fetching\<close>

record author_spec =
  author_name :: string
  author_id :: string
  author_type :: string

definition feed_url :: "author_spec \<Rightarrow> string" where
  "feed_url a =
     (if author_type a = ''orcid''
      then ''https://arxiv.org/a/'' @
           py_replace ''http://orcid.org/'' [] (py_replace ''https://orcid.org/'' [] (author_id a)) @
           ''.atom2''
      else ''https://arxiv.org/a/'' @ author_id a @ ''.atom2'')"

text \<open>
  The request itself is the parameter \<open>urlopen\<close>: the decoded body, or \<^verbatim>\<open>None\<close> when
  the request or the decoding raised.
\<close>

definition fetch_author_feed :: "(string \<Rightarrow> string option) \<Rightarrow> author_spec \<Rightarrow> string option" where
  "fetch_author_feed urlopen a = urlopen (feed_url a)"

section \<open>Dates\<close>

record datetime =
  dt_year :: nat
  dt_month :: nat
  dt_day :: nat
  dt_hour :: nat
  dt_minute :: nat


definition month_abbr :: "nat \<Rightarrow> string" where
  "month_abbr m =
     (if 1 \<le> m \<and> m \<le> 12
      then [''Jan'', ''Feb'', ''Mar'', ''Apr'', ''May'', ''Jun'',
            ''Jul'', ''Aug'', ''Sep'', ''Oct'', ''Nov'', ''Dec''] ! (m - 1)
      else [])"

text \<open>
  \<^verbatim>\<open>dt.strftime('%b %d, %Y')\<close> in the C locale: the abbreviated month name, the day
  with two digits, and the year in decimal as the C library of the platform prints it,
  without padding (\<^verbatim>\<open>Dec 25, 999\<close> for the year 999).
\<close>

definition strftime_date :: "datetime \<Rightarrow> string" where
  "strftime_date dt =
     month_abbr (dt_month dt) @ '' '' @ zero_pad 2 (dt_day dt) @ '', '' @ str_nat (dt_year dt)"

text \<open>\<^verbatim>\<open>dt.strftime('%b %d, %Y at %I:%M %p')\<close>.\<close>

definition strftime_stamp :: "datetime \<Rightarrow> string" where
  "strftime_stamp dt =
     strftime_date dt @ '' at '' @
     zero_pad 2 (if dt_hour dt mod 12 = 0 then 12 else dt_hour dt mod 12) @ '':'' @
     zero_pad 2 (dt_minute dt) @ '' '' @ (if dt_hour dt < 12 then ''AM'' else ''PM'')"

text \<open>
  \<^verbatim>\<open>format_date\<close>: the bare \<^verbatim>\<open>except\<close> catches whatever the body raises, also the
  \<^verbatim>\<open>AttributeError\<close> of \<^verbatim>\<open>None.replace\<close>, and returns the argument. The library parser
  \<^verbatim>\<open>datetime.fromisoformat\<close> is the parameter \<open>fromisoformat\<close>.
\<close>

definition format_date :: "(string \<Rightarrow> pyerr + datetime) \<Rightarrow> string option \<Rightarrow> string option" where
  "format_date fromisoformat date_string =
     (case bind_err (case date_string of None \<Rightarrow> Inl AttributeError
                                        | Some s \<Rightarrow> Inr (py_replace ''Z'' ''+00:00'' s))
             (\<lambda>normalized. bind_err (fromisoformat normalized) (\<lambda>dt. Inr (strftime_date dt)))
      of Inl e \<Rightarrow> date_string
       | Inr formatted \<Rightarrow> Some formatted)"

section \<open>Aggregation\<close>

record author_data =
  author :: author_spec
  papers :: "paper list"

record merge_state =
  all_papers :: "paper list"
  seen_arxiv_ids :: "string set"

text \<open>
  The body of the inner loop of lines 258 to 265. \<open>is_seen\<close> is the condition
  \<^verbatim>\<open>paper['arxiv_id'] and paper['arxiv_id'] in seen_arxiv_ids\<close>, \<open>mark_seen\<close> the
  conditional \<^verbatim>\<open>seen_arxiv_ids.add\<close>.
\<close>

definition is_seen :: "string option \<Rightarrow> string set \<Rightarrow> bool" where
  "is_seen aid seen = (case aid of None \<Rightarrow> False | Some s \<Rightarrow> s \<noteq> [] \<and> s \<in> seen)"

definition mark_seen :: "string option \<Rightarrow> string set \<Rightarrow> string set" where
  "mark_seen aid seen =
     (case aid of None \<Rightarrow> seen | Some s \<Rightarrow> if s \<noteq> [] then insert s seen else seen)"

definition merge_step :: "paper \<Rightarrow> merge_state \<Rightarrow> merge_state" where
  "merge_step p st =
     (if is_seen (arxiv_id p) (seen_arxiv_ids st) then st
      else \<lparr>all_papers = all_papers st @ [p],
            seen_arxiv_ids = mark_seen (arxiv_id p) (seen_arxiv_ids st)\<rparr>)"

definition merge_papers :: "author_data list \<Rightarrow> paper list" where
  "merge_papers all_author_papers =
     all_papers (fold (\<lambda>author_data st. fold merge_step (papers author_data) st)
                      all_author_papers
                      \<lparr>all_papers = [], seen_arxiv_ids = {}\<rparr>)"

text \<open>
  \<^verbatim>\<open>all_papers.sort(key=lambda p: p['updated'], reverse=True)\<close>. The library sort is
  stable, also with \<^verbatim>\<open>reverse=True\<close>, which it implements by reversing the list before
  and after a stable ascending sort. A list of fewer than two items is not compared at
  all; otherwise every key takes part in a comparison, and comparing \<^verbatim>\<open>None\<close> raises
  \<^verbatim>\<open>TypeError\<close>.
\<close>

definition updated_key :: "paper \<Rightarrow> string" where
  "updated_key p = (case updated p of None \<Rightarrow> [] | Some s \<Rightarrow> s)"

definition sort_by_updated :: "paper list \<Rightarrow> pyerr + paper list" where
  "sort_by_updated ps =
     (if 2 \<le> length ps \<and> list_ex (\<lambda>p. updated p = None) ps then Inl TypeError
      else Inr (rev (sort_key updated_key (rev ps))))"

text \<open>Lines 254 to 268: the aggregated sequence the page is rendered from.\<close>

definition aggregate :: "author_data list \<Rightarrow> pyerr + paper list" where
  "aggregate all_author_papers = sort_by_updated (merge_papers all_author_papers)"

section \<open>Rendering\<close>

text \<open>The literal text of the page, piece by piece as the f-strings cut it.\<close>

definition html_head :: string where
  \<open>html_head =
     ''<!DOCTYPE html>\<newline>'' @
     ''<html lang="en">\<newline>'' @
     ''<head>\<newline>'' @
     ''    <meta charset="UTF-8">\<newline>'' @
     ''    <meta name="viewport" content="width=device-width, initial-scale=1.0">\<newline>'' @
     ''    <title>arXiv Author Papers</title>\<newline>'' @
     ''    <style>\<newline>'' @
     ''        * {\<newline>'' @
     ''            margin: 0;\<newline>'' @
     ''            padding: 0;\<newline>'' @
     ''            box-sizing: border-box;\<newline>'' @
     ''        }\<newline>'' @
     ''        \<newline>'' @
     ''        body {\<newline>'' @
     ''            font-family: -apple-system, BlinkMacSystemFont, 'Segoe UI', Roboto, Oxygen, Ubuntu, Cantarell, sans-serif;\<newline>'' @
     ''            background: #ffffff;\<newline>'' @
     ''            padding: 20px;\<newline>'' @
     ''            color: #333;\<newline>'' @
     ''        }\<newline>'' @
     ''        \<newline>'' @
     ''        .container {\<newline>'' @
     ''            max-width: 900px;\<newline>'' @
     ''            margin: 0 auto;\<newline>'' @
     ''        }\<newline>'' @
     ''        \<newline>'' @
     ''        h1 {\<newline>'' @
     ''            font-size: 24px;\<newline>'' @
     ''            margin-bottom: 20px;\<newline>'' @
     ''            color: #2c3e50;\<newline>'' @
     ''            border-bottom: 2px solid #3498db;\<newline>'' @
     ''            padding-bottom: 10px;\<newline>'' @
     ''        }\<newline>'' @
     ''        \<newline>'' @
     ''        .paper {\<newline>'' @
     ''            background: white;\<newline>'' @
     ''            border: 1px solid #e1e8ed;\<newline>'' @
     ''            border-radius: 8px;\<newline>'' @
     ''            padding: 20px;\<newline>'' @
     ''            margin-bottom: 15px;\<newline>'' @
     ''            transition: box-shadow 0.2s;\<newline>'' @
     ''        }\<newline>'' @
     ''        \<newline>'' @
     ''        .paper:hover {\<newline>'' @
     ''            box-shadow: 0 2px 8px rgba(0,0,0,0.1);\<newline>'' @
     ''        }\<newline>'' @
     ''        \<newline>'' @
     ''        .paper-title {\<newline>'' @
     ''            font-size: 18px;\<newline>'' @
     ''            font-weight: 600;\<newline>'' @
     ''            color: #2c3e50;\<newline>'' @
     ''            margin-bottom: 8px;\<newline>'' @
     ''            line-height: 1.4;\<newline>'' @
     ''        }\<newline>'' @
     ''        \<newline>'' @
     ''        .paper-title a {\<newline>'' @
     ''            color: #3498db;\<newline>'' @
     ''            text-decoration: none;\<newline>'' @
     ''        }\<newline>'' @
     ''        \<newline>'' @
     ''        .paper-title a:hover {\<newline>'' @
     ''            text-decoration: underline;\<newline>'' @
     ''        }\<newline>'' @
     ''        \<newline>'' @
     ''        .paper-authors {\<newline>'' @
     ''            color: #555;\<newline>'' @
     ''            font-size: 14px;\<newline>'' @
     ''            margin-bottom: 8px;\<newline>'' @
     ''        }\<newline>'' @
     ''        \<newline>'' @
     ''        .paper-meta {\<newline>'' @
     ''            display: flex;\<newline>'' @
     ''            gap: 15px;\<newline>'' @
     ''            font-size: 13px;\<newline>'' @
     ''            color: #7f8c8d;\<newline>'' @
     ''            margin-bottom: 10px;\<newline>'' @
     ''            flex-wrap: wrap;\<newline>'' @
     ''        }\<newline>'' @
     ''        \<newline>'' @
     ''        .paper-abstract {\<newline>'' @
     ''            color: #555;\<newline>'' @
     ''            font-size: 14px;\<newline>'' @
     ''            line-height: 1.6;\<newline>'' @
     ''            margin-top: 10px;\<newline>'' @
     ''            padding-top: 10px;\<newline>'' @
     ''            border-top: 1px solid #f0f0f0;\<newline>'' @
     ''        }\<newline>'' @
     ''        \<newline>'' @
     ''        .paper-abstract.collapsed {\<newline>'' @
     ''            display: -webkit-box;\<newline>'' @
     ''            -webkit-line-clamp: 3;\<newline>'' @
     ''            -webkit-box-orient: vertical;\<newline>'' @
     ''            overflow: hidden;\<newline>'' @
     ''        }\<newline>'' @
     ''        \<newline>'' @
     ''        .show-more {\<newline>'' @
     ''            color: #3498db;\<newline>'' @
     ''            cursor: pointer;\<newline>'' @
     ''            font-size: 13px;\<newline>'' @
     ''            margin-top: 5px;\<newline>'' @
     ''            display: inline-block;\<newline>'' @
     ''        }\<newline>'' @
     ''        \<newline>'' @
     ''        .show-more:hover {\<newline>'' @
     ''            text-decoration: underline;\<newline>'' @
     ''        }\<newline>'' @
     ''        \<newline>'' @
     ''        .no-results {\<newline>'' @
     ''            text-align: center;\<newline>'' @
     ''            padding: 40px;\<newline>'' @
     ''            color: #7f8c8d;\<newline>'' @
     ''            font-size: 16px;\<newline>'' @
     ''        }\<newline>'' @
     ''        \<newline>'' @
     ''        .last-updated {\<newline>'' @
     ''            text-align: center;\<newline>'' @
     ''            color: #95a5a6;\<newline>'' @
     ''            font-size: 12px;\<newline>'' @
     ''            margin-top: 20px;\<newline>'' @
     ''        }\<newline>'' @
     ''    </style>\<newline>'' @
     ''</head>\<newline>'' @
     ''<body>\<newline>'' @
     ''    <div class="container">\<newline>'' @
     ''        <h1>Recent arXiv Papers</h1>\<newline>''\<close>

definition no_results_html :: string where
  \<open>no_results_html =
     ''\<newline>'' @
     ''        <div class="no-results">No papers found</div>\<newline>''\<close>

definition paper_open :: string where
  \<open>paper_open =
     ''\<newline>'' @
     ''        <div class="paper">\<newline>'' @
     ''            <div class="paper-title">\<newline>'' @
     ''                <a href="''\<close>

definition paper_after_url :: string where
  \<open>paper_after_url =
     ''" target="_blank" rel="noopener noreferrer">''\<close>

definition paper_after_title :: string where
  \<open>paper_after_title =
     ''</a>\<newline>'' @
     ''            </div>\<newline>'' @
     ''            <div class="paper-authors">\<newline>'' @
     ''                ''\<close>

definition paper_after_authors :: string where
  \<open>paper_after_authors =
     ''\<newline>'' @
     ''            </div>\<newline>'' @
     ''            <div class="paper-meta">\<newline>'' @
     ''                <span>'' @ [CHR 0xEF, CHR 0xA3, CHR 0xBF, CHR 0xC3, CHR 0xBC, CHR 0xC3, CHR 0xAC, CHR 0xC3, CHR 0x96] @ '' ''\<close>

definition span_close :: string where
  \<open>span_close =
     ''</span>\<newline>''\<close>

definition id_badge_open :: string where
  \<open>id_badge_open =
     ''                <span>'' @ [CHR 0xEF, CHR 0xA3, CHR 0xBF, CHR 0xC3, CHR 0xBC, CHR 0xC3, CHR 0xAE, CHR 0xC3, CHR 0xB1] @ '' ''\<close>

definition cat_badge_open :: string where
  \<open>cat_badge_open =
     ''                <span>'' @ [CHR 0xEF, CHR 0xA3, CHR 0xBF, CHR 0xC3, CHR 0xBC, CHR 0xC3, CHR 0xA8, CHR 0xE2, CHR 0x88, CHR 0x91, CHR 0xC3, CHR 0x94, CHR 0xE2, CHR 0x88, CHR 0x8F, CHR 0xC3, CHR 0xA8] @ '' ''\<close>

definition abstract_open :: string where
  \<open>abstract_open =
     ''            </div>\<newline>'' @
     ''            <div class="paper-abstract collapsed" id="''\<close>

definition abstract_after_id :: string where
  \<open>abstract_after_id =
     ''">\<newline>'' @
     ''                ''\<close>

definition abstract_after_summary :: string where
  \<open>abstract_after_summary =
     ''\<newline>'' @
     ''            </div>\<newline>'' @
     ''            <span class="show-more" onclick="toggleAbstract('' @ [CHR 0x27]\<close>

definition paper_close :: string where
  \<open>paper_close =
     [CHR 0x27] @ '', this)">Show more</span>\<newline>'' @
     ''        </div>\<newline>''\<close>

definition footer_open :: string where
  \<open>footer_open =
     ''\<newline>'' @
     ''        <div class="last-updated">Generated: ''\<close>

definition footer_sep :: string where
  \<open>footer_sep =
     '' | ''\<close>

definition footer_paper :: string where
  \<open>footer_paper =
     '' paper''\<close>

definition footer_close :: string where
  \<open>footer_close =
     '' displayed</div>\<newline>'' @
     ''    </div>\<newline>'' @
     ''\<newline>'' @
     ''    <script>\<newline>'' @
     ''        function toggleAbstract(id, element) {\<newline>'' @
     ''            const abstract = document.getElementById(id);\<newline>'' @
     ''            if (abstract.classList.contains('collapsed')) {\<newline>'' @
     ''                abstract.classList.remove('collapsed');\<newline>'' @
     ''                element.textContent = 'Show less';\<newline>'' @
     ''            } else {\<newline>'' @
     ''                abstract.classList.add('collapsed');\<newline>'' @
     ''                element.textContent = 'Show more';\<newline>'' @
     ''            }\<newline>'' @
     ''        }\<newline>'' @
     ''    </script>\<newline>'' @
     ''</body>\<newline>'' @
     ''</html>\<newline>''\<close>


text \<open>One pass of the loop of lines 276 to 306: the text added to \<^verbatim>\<open>html\<close>.\<close>

definition render_paper :: "(string \<Rightarrow> pyerr + datetime) \<Rightarrow> nat \<Rightarrow> paper \<Rightarrow> pyerr + string" where
  "render_paper fromisoformat idx p =
     (let abstract_id = ''abstract-'' @ str_nat idx
      in bind_err (if categories p \<noteq> [] then py_join '', '' (categories p) else Inr [])
           (\<lambda>cats.
         bind_err (py_join '', '' (authors p)) (\<lambda>names.
           Inr (paper_open @ escape (url p) @ paper_after_url @ escape (title p) @
                paper_after_title @ escape names @ paper_after_authors @
                fmt_value (format_date fromisoformat (published p)) @ span_close @
                (case arxiv_id p of
                   None \<Rightarrow> []
                 | Some aid \<Rightarrow> if aid \<noteq> [] then id_badge_open @ escape aid @ span_close else []) @
                (if cats \<noteq> [] then cat_badge_open @ escape cats @ span_close else []) @
                abstract_open @ abstract_id @ abstract_after_id @ escape (summary p) @
                abstract_after_summary @ abstract_id @ paper_close))))"

fun render_papers ::
  "(string \<Rightarrow> pyerr + datetime) \<Rightarrow> nat \<Rightarrow> paper list \<Rightarrow> string \<Rightarrow> pyerr + string" where
  "render_papers fromisoformat idx [] html = Inr html"
| "render_papers fromisoformat idx (p # ps) html =
     bind_err (render_paper fromisoformat idx p)
       (\<lambda>block. render_papers fromisoformat (Suc idx) ps (html @ block))"

definition footer :: "datetime \<Rightarrow> nat \<Rightarrow> string" where
  "footer now paper_count =
     footer_open @ strftime_stamp now @ footer_sep @ str_nat paper_count @ footer_paper @
     (if paper_count \<noteq> 1 then ''s'' else []) @ footer_close"

text \<open>
  \<^verbatim>\<open>generate_html\<close>; the clock reading \<^verbatim>\<open>datetime.now()\<close> is the parameter \<open>now\<close>.
\<close>

definition generate_html ::
  "(string \<Rightarrow> pyerr + datetime) \<Rightarrow> datetime \<Rightarrow> author_data list \<Rightarrow> pyerr + string" where
  "generate_html fromisoformat now all_author_papers =
     bind_err (aggregate all_author_papers) (\<lambda>sorted_papers.
       bind_err (if sorted_papers = [] then Inr (html_head @ no_results_html)
                 else render_papers fromisoformat 0 sorted_papers html_head)
         (\<lambda>html. Inr (html @ footer now (length sorted_papers))))"

section \<open>The run\<close>

definition AUTHORS :: "author_spec list" where
  "AUTHORS =
     [\<lparr>author_name = ''Alex Bartel'', author_id = ''bartel_a_1'', author_type = ''arxiv''\<rparr>,
      \<lparr>author_name = ''Ross Paterson'', author_id = ''paterson_r_1'', author_type = ''arxiv''\<rparr>,
      \<lparr>author_name = ''Dan Loughran'', author_id = ''0000-0001-5892-1564'', author_type = ''orcid''\<rparr>]"

text \<open>
  The loop of \<^verbatim>\<open>main\<close>: an author whose fetch gave nothing, or an empty body, has no
  papers.
\<close>

definition author_papers ::
  "(string \<Rightarrow> string option) \<Rightarrow> (string \<Rightarrow> pyerr + elem) \<Rightarrow> author_spec \<Rightarrow> author_data" where
  "author_papers urlopen fromstring a =
     (case fetch_author_feed urlopen a of
        None \<Rightarrow> \<lparr>author = a, papers = []\<rparr>
      | Some xml_data \<Rightarrow>
          if xml_data \<noteq> [] then \<lparr>author = a, papers = parse_atom_feed fromstring xml_data\<rparr>
          else \<lparr>author = a, papers = []\<rparr>)"

text \<open>\<^verbatim>\<open>main\<close>: the text written to the output file, or the exception that ends the run.\<close>

definition main ::
  "(string \<Rightarrow> string option) \<Rightarrow> (string \<Rightarrow> pyerr + elem) \<Rightarrow> (string \<Rightarrow> pyerr + datetime) \<Rightarrow>
   datetime \<Rightarrow> pyerr + string" where
  "main urlopen fromstring fromisoformat now =
     generate_html fromisoformat now (map (author_papers urlopen fromstring) AUTHORS)"


section \<open>Auxiliary definitions\<close>

text \<open>What \<^verbatim>\<open>html.escape\<close> makes of one character.\<close>

definition esc_char :: "char \<Rightarrow> string" where
  "esc_char c =
     (if c = CHR ''&'' then ''&amp;''
      else if c = CHR ''<'' then ''&lt;''
      else if c = CHR ''>'' then ''&gt;''
      else if c = CHR 0x22 then ''&quot;''
      else if c = CHR 0x27 then ''&#x27;''
      else [c])"


text \<open>The identifiers the merge loop has marked once it holds the given records.\<close>

definition seen_of :: "paper list \<Rightarrow> string set" where
  "seen_of ps = {k. k \<noteq> [] \<and> Some k \<in> arxiv_id ` set ps}"


text \<open>
  The wording of the specification for the identifier of an ORCID author, to compare
  with \<open>feed_url\<close>: a leading \<^verbatim>\<open>https://orcid.org/\<close> or \<^verbatim>\<open>http://orcid.org/\<close> is
  taken off, nothing else.
\<close>

definition strip_orcid_prefix :: "string \<Rightarrow> string" where
  "strip_orcid_prefix i =
     (if prefix ''https://orcid.org/'' i then drop (length ''https://orcid.org/'') i
      else if prefix ''http://orcid.org/'' i then drop (length ''http://orcid.org/'') i
      else i)"

text \<open>The entries the parser does not skip when nothing is raised.\<close>

definition has_title_and_id :: "elem \<Rightarrow> bool" where
  "has_title_and_id e \<longleftrightarrow> find_elem (atom ''title'') e \<noteq> None \<and> find_elem (atom ''id'') e \<noteq> None"

text \<open>Records and feeds for the examples.\<close>

definition sample_paper :: "string \<Rightarrow> string option \<Rightarrow> string \<Rightarrow> paper" where
  "sample_paper t aid u =
     \<lparr>title = t, summary = ''An abstract.'', authors = [Some ''A. Author''],
      published = Some u, updated = Some u, url = ''http://arxiv.org/abs/'' @ t,
      arxiv_id = aid, categories = [Some ''math.NT'']\<rparr>"

definition sample_author :: "string \<Rightarrow> author_spec" where
  "sample_author n = \<lparr>author_name = n, author_id = n, author_type = ''arxiv''\<rparr>"

definition sample_feeds :: "author_data list" where
  "sample_feeds =
     [\<lparr>author = sample_author ''a'',
       papers = [sample_paper ''P1'' (Some ''9901.1'') ''2024-01-02'',
                 sample_paper ''P2'' (Some ''9901.2'') ''2024-01-05'']\<rparr>,
      \<lparr>author = sample_author ''b'',
       papers = [sample_paper ''P2-again'' (Some ''9901.2'') ''2024-01-05'',
                 sample_paper ''P3'' (Some ''9901.3'') ''2024-01-01'',
                 sample_paper ''P4'' None ''2024-01-05'',
                 sample_paper ''P4'' None ''2024-01-05'']\<rparr>]"


definition sample_entry :: "string \<Rightarrow> string \<Rightarrow> elem" where
  "sample_entry t u =
     Elem (atom ''entry'') [] None
       [Elem (atom ''id'') [] (Some u) [],
        Elem (atom ''updated'') [] (Some ''2024-01-05T10:00:00Z'') [],
        Elem (atom ''published'') [] (Some ''2024-01-02T09:30:00Z'') [],
        Elem (atom ''title'') [] (Some t) [],
        Elem (atom ''summary'') [] (Some ''  An abstract.  '') [],
        Elem (atom ''author'') [] None [Elem (atom ''name'') [] (Some ''A. Author'') []],
        Elem (atom ''author'') [] None [Elem (atom ''name'') [] (Some ''B. Author'') []],
        Elem (atom ''category'') [(''term'', ''math.NT''), (''scheme'', ''http://arxiv.org/schemas/atom'')] None []]"

definition sample_record :: "string \<Rightarrow> string \<Rightarrow> string option \<Rightarrow> paper" where
  "sample_record t u aid =
     \<lparr>title = t, summary = ''An abstract.'', authors = [Some ''A. Author'', Some ''B. Author''],
      published = Some ''2024-01-02T09:30:00Z'', updated = Some ''2024-01-05T10:00:00Z'',
      url = u, arxiv_id = aid, categories = [Some ''math.NT'']\<rparr>"



text \<open>
  In the examples the library parser of dates is this function: it knows the timestamp
  the sample entries carry, after the \<^verbatim>\<open>Z\<close> was replaced, and one date of the year 999,
  and rejects every other text; \<open>sample_now\<close> is the clock reading.
\<close>

definition sample_fromisoformat :: "string \<Rightarrow> pyerr + datetime" where
  "sample_fromisoformat s =
     (if s = ''2024-01-02T09:30:00+00:00''
      then Inr \<lparr>dt_year = 2024, dt_month = 1, dt_day = 2, dt_hour = 9, dt_minute = 30\<rparr>
      else if s = ''0999-12-25''
      then Inr \<lparr>dt_year = 999, dt_month = 12, dt_day = 25, dt_hour = 0, dt_minute = 0\<rparr>
      else Inl ValueError)"

definition sample_now :: datetime where
  "sample_now = \<lparr>dt_year = 2024, dt_month = 3, dt_day = 9, dt_hour = 14, dt_minute = 5\<rparr>"

text \<open>
  An entry whose title element is empty, one without an id element, one whose author
  element has no name, and a feed element around given entries; \<open>untitled_feed_xml\<close> is
  the document that the library parses into \<open>sample_root [untitled_entry]\<close>. In the
  examples the library parser is the function that returns the tree at hand.
\<close>

definition untitled_entry :: elem where
  "untitled_entry =
     Elem (atom ''entry'') [] None
       [Elem (atom ''title'') [] None [],
        Elem (atom ''id'') [] (Some ''http://arxiv.org/abs/2401.00002v1'') []]"

definition idless_entry :: elem where
  "idless_entry =
     Elem (atom ''entry'') [] None [Elem (atom ''title'') [] (Some ''No id'') []]"

definition nameless_entry :: elem where
  "nameless_entry =
     Elem (atom ''entry'') [] None [Elem (atom ''author'') [] None []]"

definition untitled_feed_xml :: string where
  \<open>untitled_feed_xml =
     ''<feed xmlns="http://www.w3.org/2005/Atom"><title>Feed</title>'' @
     ''<entry><title/><id>http://arxiv.org/abs/2401.00002v1</id></entry></feed>''\<close>

definition sample_root :: "elem list \<Rightarrow> elem" where
  "sample_root entries =
     Elem (atom ''feed'') [] None (Elem (atom ''title'') [] (Some ''Feed'') [] # entries)"

text \<open>A record whose title is markup.\<close>

definition script_record :: paper where
  "script_record =
     sample_record ''<script>alert(1)</script>'' ''http://arxiv.org/abs/2401.00001v2''
       (Some ''2401.00001v2'')"

text \<open>
  A feed of two entries, the second with an empty \<^verbatim>\<open>updated\<close> element, and the records
  the parser makes of them; \<open>undated_feed_xml\<close> is the document that the library parses
  into \<open>sample_root [dated_entry, undated_entry]\<close>.
\<close>

definition dated_entry :: elem where
  "dated_entry =
     Elem (atom ''entry'') [] None
       [Elem (atom ''id'') [] (Some ''http://arxiv.org/abs/2401.00001v2'') [],
        Elem (atom ''updated'') [] (Some ''2024-01-05T10:00:00Z'') [],
        Elem (atom ''title'') [] (Some ''Dated'') []]"

definition undated_entry :: elem where
  "undated_entry =
     Elem (atom ''entry'') [] None
       [Elem (atom ''id'') [] (Some ''http://arxiv.org/abs/2401.00003v1'') [],
        Elem (atom ''updated'') [] None [],
        Elem (atom ''title'') [] (Some ''Undated'') []]"

definition undated_feed_xml :: string where
  \<open>undated_feed_xml =
     ''<feed xmlns="http://www.w3.org/2005/Atom"><title>Feed</title>'' @
     ''<entry><id>http://arxiv.org/abs/2401.00001v2</id>'' @
     ''<updated>2024-01-05T10:00:00Z</updated><title>Dated</title></entry>'' @
     ''<entry><id>http://arxiv.org/abs/2401.00003v1</id>'' @
     ''<updated/><title>Undated</title></entry></feed>''\<close>

definition dated_record :: paper where
  "dated_record =
     \<lparr>title = ''Dated'', summary = [], authors = [], published = Some [],
      updated = Some ''2024-01-05T10:00:00Z'', url = ''http://arxiv.org/abs/2401.00001v2'',
      arxiv_id = Some ''2401.00001v2'', categories = []\<rparr>"

definition undated_record :: paper where
  "undated_record =
     \<lparr>title = ''Undated'', summary = [], authors = [], published = Some [],
      updated = None, url = ''http://arxiv.org/abs/2401.00003v1'',
      arxiv_id = Some ''2401.00003v1'', categories = []\<rparr>"

text \<open>
  A feed of one entry whose \<^verbatim>\<open>published\<close> element holds markup, written with entities
  in the document \<open>injected_feed_xml\<close>; the record the parser makes of it; and the
  block of the page \<open>render_paper\<close> makes of that record.
\<close>

definition injected_entry :: elem where
  "injected_entry =
     Elem (atom ''entry'') [] None
       [Elem (atom ''id'') [] (Some ''http://arxiv.org/abs/2401.00004v1'') [],
        Elem (atom ''published'') [] (Some ''<script>alert(1)</script>'') [],
        Elem (atom ''title'') [] (Some ''Injected'') []]"

definition injected_feed_xml :: string where
  \<open>injected_feed_xml =
     ''<feed xmlns="http://www.w3.org/2005/Atom"><title>Feed</title>'' @
     ''<entry><id>http://arxiv.org/abs/2401.00004v1</id>'' @
     ''<published>&lt;script&gt;alert(1)&lt;/script&gt;</published>'' @
     ''<title>Injected</title></entry></feed>''\<close>

definition injected_record :: paper where
  "injected_record =
     \<lparr>title = ''Injected'', summary = [], authors = [],
      published = Some ''<script>alert(1)</script>'', updated = Some [],
      url = ''http://arxiv.org/abs/2401.00004v1'',
      arxiv_id = Some ''2401.00004v1'', categories = []\<rparr>"

definition injected_block :: string where
  "injected_block =
     paper_open @ escape ''http://arxiv.org/abs/2401.00004v1'' @ paper_after_url @
     escape ''Injected'' @ paper_after_title @ escape [] @ paper_after_authors @
     ''<script>alert(1)</script>'' @ span_close @
     id_badge_open @ escape ''2401.00004v1'' @ span_close @
     abstract_open @ ''abstract-0'' @ abstract_after_id @ escape [] @
     abstract_after_summary @ ''abstract-0'' @ paper_close"


section \<open>Splitting and replacing\<close>

lemma split_from_not_Nil: "split_from sep cur s \<noteq> []"
  by (induction sep cur s rule: split_from.induct) auto

lemma split_from_no_sep:
  "\<not> sublist sep s \<Longrightarrow> split_from sep cur s = [cur @ s]"
proof (induction sep cur s rule: split_from.induct)
  case (1 sep cur)
  then show ?case by simp
next
  case (2 sep cur c cs)
  from "2.prems" have np: "\<not> prefix sep (c # cs)" and ns: "\<not> sublist sep cs"
    by (auto simp: sublist_Cons_right)
  with "2.IH"(2) show ?case by simp
qed

lemma split_from_last:
  "sep \<noteq> [] \<Longrightarrow> sublist sep s \<Longrightarrow>
   \<exists>pre t. s = pre @ sep @ t \<and> last (split_from sep cur s) = t \<and> \<not> sublist sep t"
proof (induction sep cur s rule: split_from.induct)
  case (1 sep cur)
  then show ?case by simp
next
  case (2 sep cur c cs)
  show ?case
  proof (cases "prefix sep (c # cs)")
    case True
    define rest where "rest = drop (length sep) (c # cs)"
    from True have s_eq: "c # cs = sep @ rest"
      by (auto simp: rest_def prefix_def)
    have lst: "last (split_from sep cur (c # cs)) = last (split_from sep [] rest)"
      using True "2.prems"(1) by (simp add: rest_def split_from_not_Nil)
    show ?thesis
    proof (cases "sublist sep rest")
      case True
      from "2.IH"(1)[OF _ "2.prems"(1)] \<open>prefix sep (c # cs)\<close> "2.prems"(1) True
      obtain pre t where "rest = pre @ sep @ t" "last (split_from sep [] rest) = t" "\<not> sublist sep t"
        by (auto simp: rest_def)
      with s_eq lst have "c # cs = (sep @ pre) @ sep @ t \<and> last (split_from sep cur (c # cs)) = t \<and> \<not> sublist sep t"
        by simp
      then show ?thesis by blast
    next
      case False
      then have "split_from sep [] rest = [rest]"
        by (simp add: split_from_no_sep)
      with s_eq lst False have "c # cs = [] @ sep @ rest \<and> last (split_from sep cur (c # cs)) = rest \<and> \<not> sublist sep rest"
        by simp
      then show ?thesis by blast
    qed
  next
    case False
    with "2.prems"(2) have sub: "sublist sep cs"
      by (simp add: sublist_Cons_right)
    from "2.IH"(2)[OF _ "2.prems"(1) sub] False
    obtain pre t where "cs = pre @ sep @ t" "last (split_from sep (cur @ [c]) cs) = t" "\<not> sublist sep t"
      by auto
    with False have "c # cs = (c # pre) @ sep @ t \<and> last (split_from sep cur (c # cs)) = t \<and> \<not> sublist sep t"
      by simp
    then show ?thesis by blast
  qed
qed

text \<open>The separator at the end of the text ends a piece when no earlier occurrence overlaps it.\<close>

lemma split_from_trailing_sep:
  assumes "sep \<noteq> []"
    and "\<And>a b. pre = a @ b \<Longrightarrow> b \<noteq> [] \<Longrightarrow> length b < length sep \<Longrightarrow> \<not> prefix sep (b @ sep)"
  shows "last (split_from sep cur (pre @ sep)) = []"
  using assms
proof (induction pre arbitrary: cur rule: length_induct)
  case (1 pre)
  show ?case
  proof (cases pre)
    case Nil
    from "1.prems"(1) obtain c cs where sc: "sep = c # cs" by (cases sep) auto
    have "split_from sep cur sep = [cur, []]"
      unfolding sc by simp
    with Nil show ?thesis by simp
  next
    case (Cons c cs)
    show ?thesis
    proof (cases "prefix sep (pre @ sep)")
      case True
      have len: "length sep \<le> length pre"
      proof (rule ccontr)
        assume "\<not> length sep \<le> length pre"
        then have "length pre < length sep" by simp
        with "1.prems"(2)[of "[]" pre] Cons True show False by simp
      qed
      define pre' where "pre' = drop (length sep) pre"
      have d: "drop (length sep) (pre @ sep) = pre' @ sep"
        using len by (simp add: pre'_def)
      have shorter: "length pre' < length pre"
        using len "1.prems"(1) Cons by (simp add: pre'_def)
      have cond: "\<And>a b. pre' = a @ b \<Longrightarrow> b \<noteq> [] \<Longrightarrow> length b < length sep \<Longrightarrow> \<not> prefix sep (b @ sep)"
      proof -
        fix a b assume "pre' = a @ b" "b \<noteq> []" "length b < length sep"
        moreover have "pre = (take (length sep) pre @ a) @ b"
          using \<open>pre' = a @ b\<close> by (metis append.assoc append_take_drop_id pre'_def)
        ultimately show "\<not> prefix sep (b @ sep)"
          using "1.prems"(2) by blast
      qed
      from "1.IH" shorter "1.prems"(1) cond
      have "last (split_from sep [] (pre' @ sep)) = []" by blast
      moreover have "split_from sep cur (pre @ sep) = cur # split_from sep [] (pre' @ sep)"
        using True "1.prems"(1) d Cons by simp
      ultimately show ?thesis by (simp add: split_from_not_Nil)
    next
      case False
      have cond: "\<And>a b. cs = a @ b \<Longrightarrow> b \<noteq> [] \<Longrightarrow> length b < length sep \<Longrightarrow> \<not> prefix sep (b @ sep)"
      proof -
        fix a b assume "cs = a @ b" "b \<noteq> []" "length b < length sep"
        moreover have "pre = (c # a) @ b" using Cons \<open>cs = a @ b\<close> by simp
        ultimately show "\<not> prefix sep (b @ sep)"
          using "1.prems"(2) by blast
      qed
      from "1.IH" Cons "1.prems"(1) cond
      have "last (split_from sep (cur @ [c]) (cs @ sep)) = []" by simp
      moreover have "split_from sep cur (pre @ sep) = split_from sep (cur @ [c]) (cs @ sep)"
        using False Cons by simp
      ultimately show ?thesis by simp
    qed
  qed
qed

lemma abs_overlap:
  assumes "b \<noteq> []" "length b < 5" "prefix ''/abs/'' (b @ ''/abs/'')"
  shows "b = ''/abs''"
proof -
  obtain x1 b1 where b: "b = x1 # b1" using assms(1) by (cases b) auto
  show ?thesis
  proof (cases b1)
    case Nil
    with b assms(3) show ?thesis by simp
  next
    case c2: (Cons x2 b2)
    show ?thesis
    proof (cases b2)
      case Nil
      with b c2 assms(3) show ?thesis by simp
    next
      case c3: (Cons x3 b3)
      show ?thesis
      proof (cases b3)
        case Nil
        with b c2 c3 assms(3) show ?thesis by simp
      next
        case c4: (Cons x4 b4)
        with b c2 c3 assms(2) have "b4 = []" by simp
        with b c2 c3 c4 assms(3) show ?thesis by simp
      qed
    qed
  qed
qed

lemma derive_arxiv_id_trailing:
  assumes "\<not> suffix ''/abs'' pre"
  shows "derive_arxiv_id (pre @ ''/abs/'') = Inr (Some [])"
proof -
  have cond: "\<And>a b. pre = a @ b \<Longrightarrow> b \<noteq> [] \<Longrightarrow> length b < length ''/abs/'' \<Longrightarrow> \<not> prefix ''/abs/'' (b @ ''/abs/'')"
  proof
    fix a b assume "pre = a @ b" "b \<noteq> []" "length b < length ''/abs/''" "prefix ''/abs/'' (b @ ''/abs/'')"
    then have "b = ''/abs''" using abs_overlap by simp
    with \<open>pre = a @ b\<close> assms show False by (simp add: suffix_def)
  qed
  have "last (split_from ''/abs/'' [] (pre @ ''/abs/'')) = []"
    by (rule split_from_trailing_sep[OF _ cond]) simp_all
  moreover have "py_in ''/abs/'' (pre @ ''/abs/'')"
    by (simp add: py_in_def sublist_appendI)
  ultimately show ?thesis
    by (simp add: derive_arxiv_id_def py_split_def py_last_def bind_err_def split_from_not_Nil)
qed

lemma derive_arxiv_id_marker:
  assumes "py_in ''/abs/'' u"
  shows "\<exists>pre s. u = pre @ ''/abs/'' @ s \<and> derive_arxiv_id u = Inr (Some s) \<and> \<not> py_in ''/abs/'' s"
proof -
  from assms have "sublist ''/abs/'' u" by (simp add: py_in_def)
  from split_from_last[OF _ this, of "[]"]
  obtain pre t where "u = pre @ ''/abs/'' @ t" "last (split_from ''/abs/'' [] u) = t" "\<not> sublist ''/abs/'' t"
    by auto
  moreover from this assms have "derive_arxiv_id u = Inr (Some t)"
    by (simp add: derive_arxiv_id_def py_split_def py_last_def bind_err_def split_from_not_Nil)
  ultimately show ?thesis by (auto simp: py_in_def)
qed

lemma derive_arxiv_id_no_marker: "\<not> py_in ''/abs/'' u \<Longrightarrow> derive_arxiv_id u = Inr None"
  by (simp add: derive_arxiv_id_def)

lemma replace_from_no_occ: "\<not> sublist old s \<Longrightarrow> replace_from old new s = s"
proof (induction old new s rule: replace_from.induct)
  case (1 old new)
  then show ?case by simp
next
  case (2 old new c cs)
  from "2.prems" have "\<not> prefix old (c # cs)" and "\<not> sublist old cs"
    by (auto simp: sublist_Cons_right)
  with "2.IH"(2) show ?case by simp
qed

lemma replace_from_prefix:
  assumes "old \<noteq> []"
  shows "replace_from old new (old @ s) = new @ replace_from old new s"
proof -
  from assms obtain c cs where "old = c # cs" by (cases old) auto
  then have "old @ s = c # (cs @ s)" by simp
  moreover have "prefix old (c # (cs @ s))" using \<open>old = c # cs\<close> by simp
  moreover have "drop (length old) (c # (cs @ s)) = s" using \<open>old = c # cs\<close> by simp
  ultimately show ?thesis using assms by simp
qed

lemma replace_from_char:
  "replace_from [c] new s = concat (map (\<lambda>x. if x = c then new else [x]) s)"
  by (induction s) auto

lemma replace_from_char_append:
  "replace_from [c] new (a @ b) = replace_from [c] new a @ replace_from [c] new b"
  by (simp add: replace_from_char)

lemma replace_from_char_concat:
  "replace_from [c] new (concat xss) = concat (map (replace_from [c] new) xss)"
  by (induction xss) (simp_all add: replace_from_char_append)

lemma esc_char_steps:
  "replace_from [CHR 0x27] ''&#x27;''
     (replace_from [CHR 0x22] ''&quot;''
       (replace_from ''>'' ''&gt;''
         (replace_from ''<'' ''&lt;'' (if c = CHR ''&'' then ''&amp;'' else [c])))) = esc_char c"
  by (simp add: esc_char_def)

lemma escape_chars: "escape s = concat (map esc_char s)"
proof -
  have "escape s =
    replace_from [CHR 0x27] ''&#x27;''
     (replace_from [CHR 0x22] ''&quot;''
       (replace_from ''>'' ''&gt;''
         (replace_from ''<'' ''&lt;''
           (concat (map (\<lambda>x. if x = CHR ''&'' then ''&amp;'' else [x]) s)))))"
    by (simp add: escape_def py_replace_def replace_from_char)
  also have "\<dots> = concat (map (\<lambda>c. replace_from [CHR 0x27] ''&#x27;''
     (replace_from [CHR 0x22] ''&quot;''
       (replace_from ''>'' ''&gt;''
         (replace_from ''<'' ''&lt;'' (if c = CHR ''&'' then ''&amp;'' else [c]))))) s)"
    by (simp only: replace_from_char_concat map_map comp_def)
  also have "\<dots> = concat (map esc_char s)"
    by (simp only: esc_char_steps)
  finally show ?thesis .
qed

lemma esc_char_clean:
  "CHR ''<'' \<notin> set (esc_char c) \<and> CHR ''>'' \<notin> set (esc_char c)
   \<and> CHR 0x22 \<notin> set (esc_char c) \<and> CHR 0x27 \<notin> set (esc_char c)"
  by (simp add: esc_char_def)

lemma escape_clean:
  "CHR ''<'' \<notin> set (escape s) \<and> CHR ''>'' \<notin> set (escape s)
   \<and> CHR 0x22 \<notin> set (escape s) \<and> CHR 0x27 \<notin> set (escape s)"
  using esc_char_clean by (auto simp: escape_chars)

lemma escape_no_script: "\<not> sublist ''<script>'' (escape s)"
proof
  assume "sublist ''<script>'' (escape s)"
  then have "set ''<script>'' \<subseteq> set (escape s)"
    by (rule set_mono_sublist)
  with escape_clean[of s] show False by simp
qed

lemma escape_append: "escape (a @ b) = escape a @ escape b"
  by (simp add: escape_chars)

lemma https_not_across:
  assumes "\<not> sublist ''https://orcid.org/'' r"
  shows "\<not> sublist ''https://orcid.org/'' (''http://orcid.org/'' @ r)"
proof
  assume "sublist ''https://orcid.org/'' (''http://orcid.org/'' @ r)"
  then have "sublist ''https://orcid.org/'' ''http://orcid.org/''
      \<or> sublist ''https://orcid.org/'' r
      \<or> (\<exists>xs1 xs2. ''https://orcid.org/'' = xs1 @ xs2 \<and> suffix xs1 ''http://orcid.org/'' \<and> prefix xs2 r)"
    by (rule iffD1[OF sublist_append])
  then consider "sublist ''https://orcid.org/'' ''http://orcid.org/''"
    | "sublist ''https://orcid.org/'' r"
    | xs1 xs2 where "''https://orcid.org/'' = xs1 @ xs2" "suffix xs1 ''http://orcid.org/''" "prefix xs2 r"
    by blast
  then show False
  proof cases
    case 1
    then have "length ''https://orcid.org/'' \<le> length ''http://orcid.org/''"
      by (rule sublist_length_le)
    then show False by simp
  next
    case 2
    with assms show False by simp
  next
    case 3
    from 3(2) have "xs1 \<in> set (suffixes ''http://orcid.org/'')"
      by (simp only: in_set_suffixes)
    moreover from 3(1) have "prefix xs1 ''https://orcid.org/''"
      by (metis prefixI)
    ultimately have "xs1 = []"
      by auto
    with 3(1,3) have "prefix ''https://orcid.org/'' r" by simp
    then have "sublist ''https://orcid.org/'' r" by (rule prefix_imp_sublist)
    with assms show False by simp
  qed
qed

lemma strip_orcid_plain:
  assumes "\<not> sublist ''https://orcid.org/'' r" "\<not> sublist ''http://orcid.org/'' r"
  shows "py_replace ''http://orcid.org/'' [] (py_replace ''https://orcid.org/'' [] r) = r"
  using assms by (simp add: py_replace_def replace_from_no_occ)

lemma strip_orcid_https:
  assumes "\<not> sublist ''https://orcid.org/'' r" "\<not> sublist ''http://orcid.org/'' r"
  shows "py_replace ''http://orcid.org/'' [] (py_replace ''https://orcid.org/'' [] (''https://orcid.org/'' @ r)) = r"
proof -
  have "replace_from ''https://orcid.org/'' [] (''https://orcid.org/'' @ r) = replace_from ''https://orcid.org/'' [] r"
    using replace_from_prefix[of "''https://orcid.org/''" "[]" r] by simp
  with assms show ?thesis
    by (simp add: py_replace_def replace_from_no_occ)
qed

lemma strip_orcid_http:
  assumes "\<not> sublist ''https://orcid.org/'' r" "\<not> sublist ''http://orcid.org/'' r"
  shows "py_replace ''http://orcid.org/'' [] (py_replace ''https://orcid.org/'' [] (''http://orcid.org/'' @ r)) = r"
proof -
  have "replace_from ''https://orcid.org/'' [] (''http://orcid.org/'' @ r) = ''http://orcid.org/'' @ r"
    using https_not_across[OF assms(1)] by (rule replace_from_no_occ)
  moreover have "replace_from ''http://orcid.org/'' [] (''http://orcid.org/'' @ r) = replace_from ''http://orcid.org/'' [] r"
    using replace_from_prefix[of "''http://orcid.org/''" "[]" r] by simp
  ultimately show ?thesis using assms(2)
    by (simp add: py_replace_def replace_from_no_occ)
qed

section \<open>Merging and sorting\<close>

lemma merge_step_seen:
  "is_seen (arxiv_id p) (seen_arxiv_ids st) \<Longrightarrow> merge_step p st = st"
  by (simp add: merge_step_def)

lemma merge_step_new:
  "\<not> is_seen (arxiv_id p) (seen_arxiv_ids st) \<Longrightarrow>
   merge_step p st = \<lparr>all_papers = all_papers st @ [p],
                       seen_arxiv_ids = mark_seen (arxiv_id p) (seen_arxiv_ids st)\<rparr>"
  by (simp add: merge_step_def)

lemma seen_of_snoc: "seen_of (ps @ [p]) = mark_seen (arxiv_id p) (seen_of ps)"
  by (auto simp: seen_of_def mark_seen_def split: option.splits)

lemma is_seen_seen_of:
  "is_seen a (seen_of ps) \<longleftrightarrow> truthy a \<and> a \<in> arxiv_id ` set ps"
  by (auto simp: is_seen_def seen_of_def truthy_def split: option.splits)

lemma find_append':
  "List.find P (xs @ ys) = (case List.find P xs of None \<Rightarrow> List.find P ys | Some x \<Rightarrow> Some x)"
  by (induction xs) auto

lemma fold_merge_step:
  assumes "seen_arxiv_ids st = seen_of (all_papers st)"
    and "distinct (filter truthy (map arxiv_id (all_papers st)))"
  shows "\<exists>rest. all_papers (fold merge_step xs st) = all_papers st @ rest
           \<and> subseq rest xs
           \<and> filter (\<lambda>p. \<not> truthy (arxiv_id p)) rest = filter (\<lambda>p. \<not> truthy (arxiv_id p)) xs
           \<and> distinct (filter truthy (map arxiv_id (all_papers st @ rest)))
           \<and> (\<forall>k. k \<noteq> [] \<longrightarrow>
                 List.find (\<lambda>p. arxiv_id p = Some k) (all_papers st @ rest) =
                 List.find (\<lambda>p. arxiv_id p = Some k) (all_papers st @ xs))"
  using assms
proof (induction xs arbitrary: st)
  case Nil
  then show ?case by simp
next
  case (Cons p xs)
  show ?case
  proof (cases "is_seen (arxiv_id p) (seen_arxiv_ids st)")
    case True
    then have step: "merge_step p st = st" by (rule merge_step_seen)
    from True Cons.prems(1) have tr: "truthy (arxiv_id p)" and mem: "arxiv_id p \<in> arxiv_id ` set (all_papers st)"
      by (simp_all add: is_seen_seen_of)
    from Cons.IH[OF Cons.prems] obtain rest where r:
      "all_papers (fold merge_step xs st) = all_papers st @ rest"
      "subseq rest xs"
      "filter (\<lambda>p. \<not> truthy (arxiv_id p)) rest = filter (\<lambda>p. \<not> truthy (arxiv_id p)) xs"
      "distinct (filter truthy (map arxiv_id (all_papers st @ rest)))"
      "\<forall>k. k \<noteq> [] \<longrightarrow>
         List.find (\<lambda>p. arxiv_id p = Some k) (all_papers st @ rest) =
         List.find (\<lambda>p. arxiv_id p = Some k) (all_papers st @ xs)"
      by blast
    have fnd: "List.find (\<lambda>q. arxiv_id q = Some k) (all_papers st @ rest) =
               List.find (\<lambda>q. arxiv_id q = Some k) (all_papers st @ p # xs)" if "k \<noteq> []" for k
    proof (cases "arxiv_id p = Some k")
      case True
      with mem have "\<exists>x. x \<in> set (all_papers st) \<and> arxiv_id x = Some k" by auto
      then have "List.find (\<lambda>q. arxiv_id q = Some k) (all_papers st) \<noteq> None"
        by (simp add: find_None_iff)
      then show ?thesis by (auto simp: find_append')
    next
      case False
      with r(5) that show ?thesis
        by (simp add: find_append' cong: option.case_cong)
    qed
    from r(1,2,3,4) tr fnd step show ?thesis
      by (intro exI[of _ rest]) auto
  next
    case False
    define st' where "st' = \<lparr>all_papers = all_papers st @ [p],
                       seen_arxiv_ids = mark_seen (arxiv_id p) (seen_arxiv_ids st)\<rparr>"
    from False have step: "merge_step p st = st'" by (simp add: merge_step_new st'_def)
    have inv1: "seen_arxiv_ids st' = seen_of (all_papers st')"
      using Cons.prems(1) by (simp add: st'_def seen_of_snoc)
    from False Cons.prems(1) have "\<not> (truthy (arxiv_id p) \<and> arxiv_id p \<in> arxiv_id ` set (all_papers st))"
      by (simp add: is_seen_seen_of)
    with Cons.prems(2) have inv2: "distinct (filter truthy (map arxiv_id (all_papers st')))"
      by (auto simp: st'_def)
    from Cons.IH[OF inv1 inv2] obtain rest where r:
      "all_papers (fold merge_step xs st') = all_papers st' @ rest"
      "subseq rest xs"
      "filter (\<lambda>p. \<not> truthy (arxiv_id p)) rest = filter (\<lambda>p. \<not> truthy (arxiv_id p)) xs"
      "distinct (filter truthy (map arxiv_id (all_papers st' @ rest)))"
      "\<forall>k. k \<noteq> [] \<longrightarrow>
         List.find (\<lambda>p. arxiv_id p = Some k) (all_papers st' @ rest) =
         List.find (\<lambda>p. arxiv_id p = Some k) (all_papers st' @ xs)"
      by blast
    have ap: "all_papers st' = all_papers st @ [p]" by (simp add: st'_def)
    from r step show ?thesis
      unfolding ap by (intro exI[of _ "p # rest"]) auto
  qed
qed

lemma fold_papers_concat:
  "fold (\<lambda>author_data st. fold merge_step (papers author_data) st) xs st =
   fold merge_step (concat (map papers xs)) st"
  by (induction xs arbitrary: st) auto

lemma merge_papers_flat:
  "merge_papers inp = all_papers (fold merge_step (concat (map papers inp)) \<lparr>all_papers = [], seen_arxiv_ids = {}\<rparr>)"
  by (simp add: merge_papers_def fold_papers_concat)

lemma merge_papers_props:
  "subseq (merge_papers inp) (concat (map papers inp))
   \<and> filter (\<lambda>p. \<not> truthy (arxiv_id p)) (merge_papers inp) =
       filter (\<lambda>p. \<not> truthy (arxiv_id p)) (concat (map papers inp))
   \<and> distinct (filter truthy (map arxiv_id (merge_papers inp)))
   \<and> (\<forall>k. k \<noteq> [] \<longrightarrow>
         List.find (\<lambda>p. arxiv_id p = Some k) (merge_papers inp) =
         List.find (\<lambda>p. arxiv_id p = Some k) (concat (map papers inp)))"
  using fold_merge_step[of "\<lparr>all_papers = [], seen_arxiv_ids = {}\<rparr>" "concat (map papers inp)"]
  by (auto simp: merge_papers_flat seen_of_def)

lemma sort_by_updated_short: "length ps < 2 \<Longrightarrow> sort_by_updated ps = Inr ps"
proof -
  assume "length ps < 2"
  then consider "ps = []" | x where "ps = [x]"
    by (cases ps; cases "tl ps") auto
  then show ?thesis
    by cases (simp_all add: sort_by_updated_def)
qed

lemma sort_by_updated_strs:
  "\<forall>p \<in> set ps. updated p \<noteq> None \<Longrightarrow>
   sort_by_updated ps = Inr (rev (sort_key updated_key (rev ps)))"
  by (auto simp: sort_by_updated_def list_ex_iff)

lemma desc_sorted:
  "sorted_wrt (\<lambda>a b. updated_key b \<le> updated_key a) (rev (sort_key updated_key (rev ps)))"
proof -
  have "sorted (map updated_key (sort_key updated_key (rev ps)))"
    by (rule sorted_sort_key)
  then have "sorted_wrt (\<lambda>a b. updated_key a \<le> updated_key b) (sort_key updated_key (rev ps))"
    by (simp add: sorted_wrt_map)
  then show ?thesis
    by (simp add: sorted_wrt_rev)
qed

lemma desc_stable:
  "filter (\<lambda>p. updated_key p = k) (rev (sort_key updated_key (rev ps))) =
   filter (\<lambda>p. updated_key p = k) ps"
proof -
  have "filter (\<lambda>p. updated_key p = k) (rev (sort_key updated_key (rev ps))) =
        rev (filter (\<lambda>p. updated_key p = k) (sort_key updated_key (rev ps)))"
    by (simp add: rev_filter)
  also have "\<dots> = rev (filter (\<lambda>p. updated_key p = k) (rev ps))"
    by (simp only: sort_key_stable)
  also have "\<dots> = filter (\<lambda>p. updated_key p = k) ps"
    by (simp add: rev_filter)
  finally show ?thesis .
qed

lemma updated_key_Some: "updated p \<noteq> None \<Longrightarrow> updated p = Some s \<longleftrightarrow> updated_key p = s"
  by (auto simp: updated_key_def)

lemma sort_by_updated_props:
  assumes "\<forall>p \<in> set ps. updated p \<noteq> None"
  shows "\<exists>out. sort_by_updated ps = Inr out
    \<and> mset out = mset ps
    \<and> sorted_wrt (\<lambda>a b. updated_key b \<le> updated_key a) out
    \<and> (\<forall>k. filter (\<lambda>p. updated p = k) out = filter (\<lambda>p. updated p = k) ps)"
proof -
  define out where "out = rev (sort_key updated_key (rev ps))"
  have 1: "sort_by_updated ps = Inr out"
    using assms by (simp add: sort_by_updated_strs out_def)
  have 2: "mset out = mset ps"
    by (simp add: out_def)
  then have so: "set out = set ps" by (metis set_mset_mset)
  have 3: "sorted_wrt (\<lambda>a b. updated_key b \<le> updated_key a) out"
    unfolding out_def by (rule desc_sorted)
  have 4: "filter (\<lambda>p. updated p = k) out = filter (\<lambda>p. updated p = k) ps" for k
  proof (cases k)
    case None
    with assms so show ?thesis by (simp add: filter_empty_conv) 
  next
    case (Some s)
    have "filter (\<lambda>p. updated p = Some s) out = filter (\<lambda>p. updated_key p = s) out"
      using assms so by (intro filter_cong) (auto simp: updated_key_Some)
    also have "\<dots> = filter (\<lambda>p. updated_key p = s) ps"
      unfolding out_def by (rule desc_stable)
    also have "\<dots> = filter (\<lambda>p. updated p = Some s) ps"
      using assms by (intro filter_cong) (auto simp: updated_key_Some)
    finally show ?thesis using Some by simp
  qed
  from 1 2 3 4 show ?thesis by blast
qed

lemma empty_key_last:
  assumes "sorted_wrt (\<lambda>a b. updated_key b \<le> updated_key a) out"
    and "i < j" "j < length out" "updated_key (out ! i) = []"
  shows "updated_key (out ! j) = []"
proof -
  from assms(1,2,3) have "updated_key (out ! j) \<le> updated_key (out ! i)"
    by (simp add: sorted_wrt_iff_nth_less)
  with assms(4) show ?thesis by simp
qed

lemma sample_merge:
  "merge_papers sample_feeds =
     [sample_paper ''P1'' (Some ''9901.1'') ''2024-01-02'',
      sample_paper ''P2'' (Some ''9901.2'') ''2024-01-05'',
      sample_paper ''P3'' (Some ''9901.3'') ''2024-01-01'',
      sample_paper ''P4'' None ''2024-01-05'',
      sample_paper ''P4'' None ''2024-01-05'']"
  by (simp add: merge_papers_def sample_feeds_def merge_step_def is_seen_def mark_seen_def sample_paper_def)

lemma sample_aggregate:
  "aggregate sample_feeds =
     Inr [sample_paper ''P2'' (Some ''9901.2'') ''2024-01-05'',
      sample_paper ''P4'' None ''2024-01-05'',
      sample_paper ''P4'' None ''2024-01-05'',
      sample_paper ''P1'' (Some ''9901.1'') ''2024-01-02'',
      sample_paper ''P3'' (Some ''9901.3'') ''2024-01-01'']"
  unfolding aggregate_def sample_merge
  by (simp add: sort_by_updated_def sample_paper_def updated_key_def)


lemma set_merge_papers: "set (merge_papers inp) \<subseteq> set (concat (map papers inp))"
proof
  fix p assume "p \<in> set (merge_papers inp)"
  moreover have "subseq (merge_papers inp) (concat (map papers inp))"
    using merge_papers_props by blast
  ultimately show "p \<in> set (concat (map papers inp))"
    by (auto dest: list_emb_set)
qed

lemma merge_step_falsy:
  "\<not> truthy (arxiv_id q) \<Longrightarrow>
   merge_step q st = \<lparr>all_papers = all_papers st @ [q], seen_arxiv_ids = seen_arxiv_ids st\<rparr>"
  by (auto simp: merge_step_def is_seen_def mark_seen_def truthy_def split: option.splits)

section \<open>Parsing\<close>

lemma parse_entry_Some:
  assumes "parse_entry e = Inr (Some p)"
  shows "\<exists>ie t. find_elem (atom ''id'') e = Some ie \<and> etext ie = Some (url p)
           \<and> find_elem (atom ''title'') e = Some t
           \<and> derive_arxiv_id (url p) = Inr (arxiv_id p)"
  using assms
  by (auto simp: parse_entry_def bind_err_def id_text_def Let_def
           split: sum.splits option.splits)


lemma py_strip_abstract: "py_strip ''  An abstract.  '' = ''An abstract.''"
  by code_simp

lemma py_strip_title: "py_strip ''Title'' = ''Title''"
  by code_simp

lemma sample_entry_parsed:
  "parse_entry (sample_entry ''Title'' ''http://arxiv.org/abs/2401.00001v2'') =
     Inr (Some (sample_record ''Title'' ''http://arxiv.org/abs/2401.00001v2'' (Some ''2401.00001v2'')))"
  by (simp add: parse_entry_def sample_entry_def sample_record_def find_elem_def findall_def
      get_attr_def atom_def author_names_def bind_err_def id_text_def derive_arxiv_id_def
      py_in_def sublist_code py_split_def py_last_def text_strip_def text_or_empty_def
      py_strip_abstract py_strip_title)



lemma sample_entry_trailing:
  "parse_entry (sample_entry ''Title'' ''http://arxiv.org/abs/'') =
     Inr (Some (sample_record ''Title'' ''http://arxiv.org/abs/'' (Some [])))"
  by (simp add: parse_entry_def sample_entry_def sample_record_def find_elem_def findall_def
      get_attr_def atom_def author_names_def bind_err_def id_text_def derive_arxiv_id_def
      py_in_def sublist_code py_split_def py_last_def text_strip_def text_or_empty_def
      py_strip_abstract py_strip_title)

lemma parse_entry_skip:
  assumes "parse_entry e = Inr r"
  shows "r = None \<longleftrightarrow> \<not> has_title_and_id e"
  using assms
  by (auto simp: parse_entry_def bind_err_def id_text_def Let_def has_title_and_id_def
           split: sum.splits option.splits)

lemma parse_entries_acc:
  "parse_entries es acc = Inr ps \<Longrightarrow>
   map (\<lambda>p. Inr (Some p)) ps =
     map (\<lambda>p. Inr (Some p)) acc @ map parse_entry (filter has_title_and_id es)"
proof (induction es arbitrary: acc)
  case Nil
  then show ?case by simp
next
  case (Cons e es)
  from Cons.prems obtain r where r: "parse_entry e = Inr r"
    by (cases "parse_entry e") auto
  show ?case
  proof (cases r)
    case None
    with r parse_entry_skip[OF r] have "\<not> has_title_and_id e" by simp
    moreover from Cons.prems r None have "parse_entries es acc = Inr ps" by simp
    ultimately show ?thesis using Cons.IH by simp
  next
    case (Some p)
    with r parse_entry_skip[OF r] have "has_title_and_id e" by simp
    moreover from Cons.prems r Some have "parse_entries es (acc @ [p]) = Inr ps" by simp
    ultimately show ?thesis using Cons.IH[of "acc @ [p]"] r Some by simp
  qed
qed

lemma parse_entries_length:
  "parse_entries es acc = Inr ps \<Longrightarrow> length ps \<le> length acc + length es"
proof (induction es arbitrary: acc)
  case Nil
  then show ?case by simp
next
  case (Cons e es)
  then show ?case
    by (fastforce split: sum.splits option.splits)
qed

lemma parse_entries_error:
  "\<exists>e \<in> set es. \<exists>err. parse_entry e = Inl err \<Longrightarrow> \<exists>err. parse_entries es acc = Inl err"
proof (induction es arbitrary: acc)
  case Nil
  then show ?case by simp
next
  case (Cons e es)
  show ?case
  proof (cases "parse_entry e")
    case (Inl err)
    then show ?thesis by simp
  next
    case (Inr r)
    with Cons.prems have "\<exists>e \<in> set es. \<exists>err. parse_entry e = Inl err" by auto
    from Cons.IH[OF this] Inr show ?thesis
      by (cases r) auto
  qed
qed

lemma parse_atom_feed_length: "length (parse_atom_feed fromstring x) \<le> MAX_PAPERS_PER_AUTHOR"
proof (cases "fromstring x")
  case (Inl e)
  then show ?thesis by (simp add: parse_atom_feed_def bind_err_def)
next
  case (Inr root)
  show ?thesis
  proof (cases "parse_entries (take MAX_PAPERS_PER_AUTHOR (findall (atom ''entry'') root)) []")
    case (Inl e)
    with Inr show ?thesis by (simp add: parse_atom_feed_def bind_err_def)
  next
    case ps: (Inr ps)
    from parse_entries_length[OF ps] have "length ps \<le> MAX_PAPERS_PER_AUTHOR" by simp
    with Inr ps show ?thesis by (simp add: parse_atom_feed_def bind_err_def)
  qed
qed

lemma parse_atom_feed_root:
  "fromstring x = Inr root \<Longrightarrow>
   parse_atom_feed fromstring x =
     (case parse_entries (take MAX_PAPERS_PER_AUTHOR (findall (atom ''entry'') root)) [] of
        Inl e \<Rightarrow> [] | Inr ps \<Rightarrow> ps)"
  by (simp add: parse_atom_feed_def bind_err_def)

lemma parse_entries_ok:
  "\<forall>e \<in> set es. \<forall>err. parse_entry e \<noteq> Inl err \<Longrightarrow> \<exists>ps. parse_entries es acc = Inr ps"
proof (induction es arbitrary: acc)
  case Nil
  then show ?case by simp
next
  case (Cons e es)
  then obtain r where "parse_entry e = Inr r"
    by (cases "parse_entry e") auto
  with Cons show ?case by (cases r) auto
qed

lemma derive_arxiv_id_total: "\<exists>r. derive_arxiv_id u = Inr r"
  by (simp add: derive_arxiv_id_def py_split_def py_last_def bind_err_def split_from_not_Nil)

lemma collect_error:
  assumes "\<exists>x \<in> set xs. \<exists>e. x = Inl e" and "\<forall>x \<in> set xs. \<forall>e. x = Inl e \<longrightarrow> e = E"
  shows "collect xs = Inl E"
  using assms
proof (induction xs rule: collect.induct)
  case 1
  then show ?case by simp
next
  case (2 e xs)
  then show ?case by simp
next
  case (3 x xs)
  then have "collect xs = Inl E" by auto
  then show ?case by (simp add: bind_err_def)
qed

lemma author_names_missing:
  assumes "\<exists>a \<in> set (findall (atom ''author'') e). find_elem (atom ''name'') a = None"
  shows "author_names e = Inl AttributeError"
  unfolding author_names_def
proof (rule collect_error)
  from assms obtain a where a: "a \<in> set (findall (atom ''author'') e)" "find_elem (atom ''name'') a = None"
    by blast
  then have "Inl AttributeError \<in> set (map (\<lambda>a. case find_elem (atom ''name'') a of None \<Rightarrow> Inl AttributeError
                | Some n \<Rightarrow> Inr (etext n)) (findall (atom ''author'') e))"
    by force
  then show "\<exists>x\<in>set (map (\<lambda>a. case find_elem (atom ''name'') a of None \<Rightarrow> Inl AttributeError
                | Some n \<Rightarrow> Inr (etext n)) (findall (atom ''author'') e)). \<exists>e. x = Inl e"
    by blast
  show "\<forall>x\<in>set (map (\<lambda>a. case find_elem (atom ''name'') a of None \<Rightarrow> Inl AttributeError
                | Some n \<Rightarrow> Inr (etext n)) (findall (atom ''author'') e)). \<forall>e. x = Inl e \<longrightarrow> e = AttributeError"
    by (auto split: option.splits)
qed

lemma parse_entry_empty_title:
  assumes "find_elem (atom ''title'') e = Some t" "etext t = None"
    and "find_elem (atom ''id'') e = Some ie" "etext ie = Some u"
    and "author_names e = Inr names"
  shows "parse_entry e = Inl AttributeError"
proof -
  from derive_arxiv_id_total obtain r where "derive_arxiv_id u = Inr r" by blast
  with assms show ?thesis
    by (simp add: parse_entry_def bind_err_def id_text_def text_strip_def)
qed

lemma parse_entry_missing_name:
  assumes "\<exists>a \<in> set (findall (atom ''author'') e). find_elem (atom ''name'') a = None"
  shows "parse_entry e = Inl AttributeError"
  using author_names_missing[OF assms] by (simp add: parse_entry_def bind_err_def)

lemma has_title_and_id_eq:
  "has_title_and_id = (\<lambda>e. find_elem (atom ''title'') e \<noteq> None \<and> find_elem (atom ''id'') e \<noteq> None)"
  by (auto simp: has_title_and_id_def fun_eq_iff)

lemma parse_entries_replicate:
  "parse_entry e = Inr (Some p) \<Longrightarrow> parse_entries (replicate n e) acc = Inr (acc @ replicate n p)"
  by (induction n arbitrary: acc) (simp_all add: replicate_app_Cons_same)

lemma idless_entry_parsed: "parse_entry idless_entry = Inr None"
  by (simp add: parse_entry_def idless_entry_def find_elem_def findall_def
      atom_def author_names_def bind_err_def id_text_def)

lemma untitled_entry_parsed: "parse_entry untitled_entry = Inl AttributeError"
  by (simp add: parse_entry_def untitled_entry_def find_elem_def findall_def
      get_attr_def atom_def author_names_def bind_err_def id_text_def derive_arxiv_id_def
      py_in_def sublist_code py_split_def py_last_def text_strip_def)

lemma nameless_entry_parsed: "parse_entry nameless_entry = Inl AttributeError"
  by (simp add: parse_entry_def nameless_entry_def find_elem_def findall_def
      atom_def author_names_def bind_err_def)

lemma sample_root_entries:
  "list_all (\<lambda>e. etag e = atom ''entry'') es \<Longrightarrow> findall (atom ''entry'') (sample_root es) = es"
  by (simp add: findall_def sample_root_def atom_def list_all_iff filter_id_conv)

lemma sample_entry_tag: "etag (sample_entry t u) = atom ''entry''"
  by (simp add: sample_entry_def)

lemma three_entries_parsed:
  "parse_atom_feed (\<lambda>x. Inr (sample_root
       [sample_entry ''Title'' ''http://arxiv.org/abs/2401.00001v2'', idless_entry,
        sample_entry ''Title'' ''http://arxiv.org/abs/''])) ''<feed>...</feed>'' =
     [sample_record ''Title'' ''http://arxiv.org/abs/2401.00001v2'' (Some ''2401.00001v2''),
      sample_record ''Title'' ''http://arxiv.org/abs/'' (Some [])]"
proof -
  have "findall (atom ''entry'') (sample_root
       [sample_entry ''Title'' ''http://arxiv.org/abs/2401.00001v2'', idless_entry,
        sample_entry ''Title'' ''http://arxiv.org/abs/'']) =
       [sample_entry ''Title'' ''http://arxiv.org/abs/2401.00001v2'', idless_entry,
        sample_entry ''Title'' ''http://arxiv.org/abs/'']"
    by (rule sample_root_entries) (simp add: sample_entry_tag, simp add: idless_entry_def)
  then show ?thesis
    by (simp add: parse_atom_feed_def bind_err_def MAX_PAPERS_PER_AUTHOR_def
        sample_entry_parsed idless_entry_parsed sample_entry_trailing)
qed

lemma many_entries_parsed:
  "parse_atom_feed (\<lambda>x. Inr (sample_root
       (replicate 21 (sample_entry ''Title'' ''http://arxiv.org/abs/2401.00001v2'')))) ''<feed>...</feed>'' =
     replicate 20 (sample_record ''Title'' ''http://arxiv.org/abs/2401.00001v2'' (Some ''2401.00001v2''))"
proof -
  have "findall (atom ''entry'') (sample_root
       (replicate 21 (sample_entry ''Title'' ''http://arxiv.org/abs/2401.00001v2''))) =
       replicate 21 (sample_entry ''Title'' ''http://arxiv.org/abs/2401.00001v2'')"
    by (rule sample_root_entries) (simp add: sample_entry_tag list_all_iff)
  then show ?thesis
    by (simp add: parse_atom_feed_def bind_err_def MAX_PAPERS_PER_AUTHOR_def
        parse_entries_replicate[OF sample_entry_parsed])
qed

section \<open>Dates and the footer\<close>


lemma str_nat_digit: "n < 10 \<Longrightarrow> str_nat n = [digit_char n]"
  by (simp add: str_nat.simps[of n])











lemma sort_by_updated_length: "sort_by_updated ps = Inr out \<Longrightarrow> length out = length ps"
  by (auto simp: sort_by_updated_def split: if_splits)

lemma generate_html_footer:
  assumes "generate_html f now inp = Inr doc"
  shows "suffix (footer now (length (merge_papers inp))) doc"
proof -
  from assms obtain out html where
    "aggregate inp = Inr out" and "doc = html @ footer now (length out)"
    by (auto simp: generate_html_def bind_err_def split: sum.splits)
  moreover from this have "length out = length (merge_papers inp)"
    by (simp add: aggregate_def sort_by_updated_length)
  ultimately show ?thesis by (simp add: suffix_def)
qed

lemma footer_count:
  "footer now n = footer_open @ strftime_stamp now @ '' | '' @ str_nat n @
     (if n = 1 then '' paper'' else '' papers'') @ footer_close"
  by (simp add: footer_def footer_sep_def footer_paper_def)

lemma footer_close_starts: "prefix '' displayed</div>'' footer_close"
  by (simp add: footer_close_def)

lemma generate_html_empty:
  "generate_html f now [] = Inr (html_head @ no_results_html @ footer now 0)"
  by (simp add: generate_html_def aggregate_def merge_papers_def sort_by_updated_def bind_err_def)

section \<open>Rendering\<close>

lemma render_paper_joins:
  assumes "render_paper f i p = Inr out"
  obtains cats names where
    "(if categories p \<noteq> [] then py_join '', '' (categories p) else Inr []) = Inr cats"
    "py_join '', '' (authors p) = Inr names"
  using assms
  by (auto simp: render_paper_def bind_err_def Let_def split: sum.splits)

lemma render_paper_title:
  assumes "render_paper f i p = Inr out"
  shows "\<exists>pre post. \<forall>t. render_paper f i (p\<lparr>title := t\<rparr>) = Inr (pre @ escape t @ post)"
proof -
  from assms obtain cats names where j:
    "(if categories p \<noteq> [] then py_join '', '' (categories p) else Inr []) = Inr cats"
    "py_join '', '' (authors p) = Inr names"
    by (rule render_paper_joins)
  define pre where "pre = paper_open @ escape (url p) @ paper_after_url"
  define post where "post = paper_after_title @ escape names @ paper_after_authors @
                fmt_value (format_date f (published p)) @ span_close @
                (case arxiv_id p of
                   None \<Rightarrow> []
                 | Some aid \<Rightarrow> if aid \<noteq> [] then id_badge_open @ escape aid @ span_close else []) @
                (if cats \<noteq> [] then cat_badge_open @ escape cats @ span_close else []) @
                abstract_open @ (''abstract-'' @ str_nat i) @ abstract_after_id @ escape (summary p) @
                abstract_after_summary @ (''abstract-'' @ str_nat i) @ paper_close"
  have "render_paper f i (p\<lparr>title := t\<rparr>) = Inr (pre @ escape t @ post)" for t
    using j by (auto simp: render_paper_def bind_err_def Let_def pre_def post_def split: if_splits)
  then show ?thesis by blast
qed

lemma render_paper_url:
  assumes "render_paper f i p = Inr out"
  shows "\<exists>pre post. \<forall>u. render_paper f i (p\<lparr>url := u\<rparr>) = Inr (pre @ escape u @ post)"
proof -
  from assms obtain cats names where j:
    "(if categories p \<noteq> [] then py_join '', '' (categories p) else Inr []) = Inr cats"
    "py_join '', '' (authors p) = Inr names"
    by (rule render_paper_joins)
  define post where "post = paper_after_url @ escape (title p) @ paper_after_title @ escape names @ paper_after_authors @
                fmt_value (format_date f (published p)) @ span_close @
                (case arxiv_id p of
                   None \<Rightarrow> []
                 | Some aid \<Rightarrow> if aid \<noteq> [] then id_badge_open @ escape aid @ span_close else []) @
                (if cats \<noteq> [] then cat_badge_open @ escape cats @ span_close else []) @
                abstract_open @ (''abstract-'' @ str_nat i) @ abstract_after_id @ escape (summary p) @
                abstract_after_summary @ (''abstract-'' @ str_nat i) @ paper_close"
  have "render_paper f i (p\<lparr>url := u\<rparr>) = Inr (paper_open @ escape u @ post)" for u
    using j by (auto simp: render_paper_def bind_err_def Let_def post_def split: if_splits)
  then show ?thesis by blast
qed

lemma render_paper_summary:
  assumes "render_paper f i p = Inr out"
  shows "\<exists>pre post. \<forall>s. render_paper f i (p\<lparr>summary := s\<rparr>) = Inr (pre @ escape s @ post)"
proof -
  from assms obtain cats names where j:
    "(if categories p \<noteq> [] then py_join '', '' (categories p) else Inr []) = Inr cats"
    "py_join '', '' (authors p) = Inr names"
    by (rule render_paper_joins)
  define pre where "pre = paper_open @ escape (url p) @ paper_after_url @ escape (title p) @
                paper_after_title @ escape names @ paper_after_authors @
                fmt_value (format_date f (published p)) @ span_close @
                (case arxiv_id p of
                   None \<Rightarrow> []
                 | Some aid \<Rightarrow> if aid \<noteq> [] then id_badge_open @ escape aid @ span_close else []) @
                (if cats \<noteq> [] then cat_badge_open @ escape cats @ span_close else []) @
                abstract_open @ (''abstract-'' @ str_nat i) @ abstract_after_id"
  define post where "post = abstract_after_summary @ (''abstract-'' @ str_nat i) @ paper_close"
  have "render_paper f i (p\<lparr>summary := s\<rparr>) = Inr (pre @ escape s @ post)" for s
    using j by (auto simp: render_paper_def bind_err_def Let_def pre_def post_def split: if_splits)
  then show ?thesis by blast
qed

lemma render_paper_authors:
  assumes "render_paper f i p = Inr out"
  shows "\<exists>pre post. \<forall>as names. py_join '', '' as = Inr names \<longrightarrow>
           render_paper f i (p\<lparr>authors := as\<rparr>) = Inr (pre @ escape names @ post)"
proof -
  from assms obtain cats names0 where j:
    "(if categories p \<noteq> [] then py_join '', '' (categories p) else Inr []) = Inr cats"
    "py_join '', '' (authors p) = Inr names0"
    by (rule render_paper_joins)
  define pre where "pre = paper_open @ escape (url p) @ paper_after_url @ escape (title p) @
                paper_after_title"
  define post where "post = paper_after_authors @
                fmt_value (format_date f (published p)) @ span_close @
                (case arxiv_id p of
                   None \<Rightarrow> []
                 | Some aid \<Rightarrow> if aid \<noteq> [] then id_badge_open @ escape aid @ span_close else []) @
                (if cats \<noteq> [] then cat_badge_open @ escape cats @ span_close else []) @
                abstract_open @ (''abstract-'' @ str_nat i) @ abstract_after_id @ escape (summary p) @
                abstract_after_summary @ (''abstract-'' @ str_nat i) @ paper_close"
  have "render_paper f i (p\<lparr>authors := as\<rparr>) = Inr (pre @ escape names @ post)"
    if "py_join '', '' as = Inr names" for as names
    using j(1) that by (auto simp: render_paper_def bind_err_def Let_def pre_def post_def split: if_splits)
  then show ?thesis by blast
qed

lemma render_paper_categories:
  assumes "render_paper f i p = Inr out"
  shows "\<exists>pre post. \<forall>cs cats. cs \<noteq> [] \<and> py_join '', '' cs = Inr cats \<and> cats \<noteq> [] \<longrightarrow>
           render_paper f i (p\<lparr>categories := cs\<rparr>) = Inr (pre @ escape cats @ post)"
proof -
  from assms obtain cats0 names where j:
    "(if categories p \<noteq> [] then py_join '', '' (categories p) else Inr []) = Inr cats0"
    "py_join '', '' (authors p) = Inr names"
    by (rule render_paper_joins)
  define pre where "pre = paper_open @ escape (url p) @ paper_after_url @ escape (title p) @
                paper_after_title @ escape names @ paper_after_authors @
                fmt_value (format_date f (published p)) @ span_close @
                (case arxiv_id p of
                   None \<Rightarrow> []
                 | Some aid \<Rightarrow> if aid \<noteq> [] then id_badge_open @ escape aid @ span_close else []) @
                cat_badge_open"
  define post where "post = span_close @
                abstract_open @ (''abstract-'' @ str_nat i) @ abstract_after_id @ escape (summary p) @
                abstract_after_summary @ (''abstract-'' @ str_nat i) @ paper_close"
  have "render_paper f i (p\<lparr>categories := cs\<rparr>) = Inr (pre @ escape cats @ post)"
    if "cs \<noteq> []" "py_join '', '' cs = Inr cats" "cats \<noteq> []" for cs cats
    using j(2) that by (auto simp: render_paper_def bind_err_def Let_def pre_def post_def split: if_splits)
  then show ?thesis by blast
qed

lemma render_paper_arxiv_id:
  assumes "render_paper f i p = Inr out"
  shows "\<exists>pre post. \<forall>a. a \<noteq> [] \<longrightarrow>
           render_paper f i (p\<lparr>arxiv_id := Some a\<rparr>) = Inr (pre @ escape a @ post)"
proof -
  from assms obtain cats names where j:
    "(if categories p \<noteq> [] then py_join '', '' (categories p) else Inr []) = Inr cats"
    "py_join '', '' (authors p) = Inr names"
    by (rule render_paper_joins)
  define pre where "pre = paper_open @ escape (url p) @ paper_after_url @ escape (title p) @
                paper_after_title @ escape names @ paper_after_authors @
                fmt_value (format_date f (published p)) @ span_close @ id_badge_open"
  define post where "post = span_close @
                (if cats \<noteq> [] then cat_badge_open @ escape cats @ span_close else []) @
                abstract_open @ (''abstract-'' @ str_nat i) @ abstract_after_id @ escape (summary p) @
                abstract_after_summary @ (''abstract-'' @ str_nat i) @ paper_close"
  have "render_paper f i (p\<lparr>arxiv_id := Some a\<rparr>) = Inr (pre @ escape a @ post)"
    if "a \<noteq> []" for a
    using j that by (auto simp: render_paper_def bind_err_def Let_def pre_def post_def split: if_splits)
  then show ?thesis by blast
qed

lemma render_papers_body:
  "render_papers f i ps html = Inr out \<Longrightarrow> \<exists>body. \<forall>h. render_papers f i ps h = Inr (h @ body)"
proof (induction ps arbitrary: i html out)
  case Nil
  have "\<forall>h. render_papers f i [] h = Inr (h @ [])" by simp
  then show ?case by blast
next
  case (Cons p ps)
  from Cons.prems obtain block where b: "render_paper f i p = Inr block"
    and r: "render_papers f (Suc i) ps (html @ block) = Inr out"
    by (auto simp: bind_err_def split: sum.splits)
  from Cons.IH[OF r] obtain body where "\<forall>h. render_papers f (Suc i) ps h = Inr (h @ body)"
    by blast
  with b have "\<forall>h. render_papers f i (p # ps) h = Inr (h @ block @ body)"
    by (simp add: bind_err_def)
  then show ?case by blast
qed

lemma render_papers_title:
  assumes "render_papers f i ps html = Inr out" "k < length ps"
  shows "\<exists>pre post. \<forall>t. render_papers f i (ps[k := (ps ! k)\<lparr>title := t\<rparr>]) html =
           Inr (pre @ escape t @ post)"
  using assms
proof (induction ps arbitrary: i k html out)
  case Nil
  then show ?case by simp
next
  case (Cons p ps)
  from Cons.prems(1) obtain block where b: "render_paper f i p = Inr block"
    and r: "render_papers f (Suc i) ps (html @ block) = Inr out"
    by (auto simp: bind_err_def split: sum.splits)
  show ?case
  proof (cases k)
    case 0
    from render_paper_title[OF b] obtain bpre bpost where
      t: "\<forall>t. render_paper f i (p\<lparr>title := t\<rparr>) = Inr (bpre @ escape t @ bpost)"
      by blast
    from render_papers_body[OF r] obtain body where
      "\<forall>h. render_papers f (Suc i) ps h = Inr (h @ body)"
      by blast
    with t 0 have "\<forall>t. render_papers f i ((p # ps)[k := ((p # ps) ! k)\<lparr>title := t\<rparr>]) html =
           Inr ((html @ bpre) @ escape t @ (bpost @ body))"
      by (simp add: bind_err_def)
    then show ?thesis by blast
  next
    case (Suc j)
    with Cons.prems(2) have "j < length ps" by simp
    from Cons.IH[OF r this] obtain pre post where
      "\<forall>t. render_papers f (Suc i) (ps[j := (ps ! j)\<lparr>title := t\<rparr>]) (html @ block) =
           Inr (pre @ escape t @ post)"
      by blast
    with b Suc have "\<forall>t. render_papers f i ((p # ps)[k := ((p # ps) ! k)\<lparr>title := t\<rparr>]) html =
           Inr (pre @ escape t @ post)"
      by (simp add: bind_err_def)
    then show ?thesis by blast
  qed
qed

lemma generate_html_title:
  assumes "aggregate inp = Inr ps" "generate_html f now inp = Inr doc" "k < length ps"
  shows "\<exists>pre post. doc = pre @ escape (title (ps ! k)) @ post
           \<and> (\<forall>t inp'. aggregate inp' = Inr (ps[k := (ps ! k)\<lparr>title := t\<rparr>]) \<longrightarrow>
                 generate_html f now inp' = Inr (pre @ escape t @ post))"
proof -
  from assms(3) have ne: "ps \<noteq> []" by auto
  with assms(1,2) obtain html where h: "render_papers f 0 ps html_head = Inr html"
    and d: "doc = html @ footer now (length ps)"
    by (auto simp: generate_html_def bind_err_def split: sum.splits)
  from render_papers_title[OF h assms(3)] obtain pre post where
    pp: "\<forall>t. render_papers f 0 (ps[k := (ps ! k)\<lparr>title := t\<rparr>]) html_head = Inr (pre @ escape t @ post)"
    by blast
  have same: "ps[k := (ps ! k)\<lparr>title := title (ps ! k)\<rparr>] = ps"
    by simp
  from pp have "render_papers f 0 (ps[k := (ps ! k)\<lparr>title := title (ps ! k)\<rparr>]) html_head =
      Inr (pre @ escape (title (ps ! k)) @ post)"
    by blast
  with h have "html = pre @ escape (title (ps ! k)) @ post"
    by (simp only: same) simp
  with d have 1: "doc = pre @ escape (title (ps ! k)) @ (post @ footer now (length ps))"
    by simp
  have 2: "generate_html f now inp' = Inr (pre @ escape t @ (post @ footer now (length ps)))"
    if "aggregate inp' = Inr (ps[k := (ps ! k)\<lparr>title := t\<rparr>])" for t inp'
  proof -
    from ne have "ps[k := (ps ! k)\<lparr>title := t\<rparr>] \<noteq> []" by simp
    with that pp show ?thesis
      by (simp add: generate_html_def bind_err_def)
  qed
  from 1 2 show ?thesis by blast
qed

lemma escape_script: "escape ''<script>'' = ''&lt;script&gt;''"
  by (simp add: escape_chars esc_char_def)

lemma script_record_rendered: "\<exists>out. render_paper sample_fromisoformat 0 script_record = Inr out"
  by (simp add: render_paper_def script_record_def sample_record_def py_join_def bind_err_def)

lemma script_record_aggregate:
  "aggregate [\<lparr>author = sample_author ''a'', papers = [script_record]\<rparr>] = Inr [script_record]"
proof -
  have "arxiv_id script_record = Some ''2401.00001v2''"
    by (simp add: script_record_def sample_record_def)
  then show ?thesis
    by (simp add: aggregate_def merge_papers_def merge_step_def is_seen_def sort_by_updated_def)
qed

lemma script_record_page:
  "\<exists>doc. generate_html sample_fromisoformat sample_now
      [\<lparr>author = sample_author ''a'', papers = [script_record]\<rparr>] = Inr doc"
  using script_record_rendered
  by (auto simp: generate_html_def script_record_aggregate bind_err_def)

lemma is_seen_empty: "\<not> is_seen a {}"
  by (simp add: is_seen_def split: option.splits)

lemma all_strs_total: "None \<notin> set xs \<Longrightarrow> \<exists>ys. all_strs xs = Some ys"
proof (induction xs)
  case Nil
  then show ?case by simp
next
  case (Cons x xs)
  then obtain ys where "all_strs xs = Some ys" by auto
  moreover from Cons.prems obtain s where "x = Some s" by (cases x) auto
  ultimately show ?case by simp
qed

lemma py_join_total: "None \<notin> set xs \<Longrightarrow> \<exists>s. py_join sep xs = Inr s"
  using all_strs_total[of xs] by (auto simp: py_join_def)

lemma render_paper_total:
  assumes "None \<notin> set (authors p)" "None \<notin> set (categories p)"
  shows "\<exists>block. render_paper f i p = Inr block"
proof -
  from py_join_total[OF assms(1)] obtain names where "py_join '', '' (authors p) = Inr names"
    by blast
  moreover from py_join_total[OF assms(2)] obtain cats where "py_join '', '' (categories p) = Inr cats"
    by blast
  ultimately show ?thesis
    by (simp add: render_paper_def bind_err_def)
qed

lemma render_papers_total:
  "\<forall>p \<in> set ps. None \<notin> set (authors p) \<and> None \<notin> set (categories p) \<Longrightarrow>
   \<exists>out. render_papers f i ps html = Inr out"
proof (induction ps arbitrary: i html)
  case Nil
  then show ?case by simp
next
  case (Cons p ps)
  then obtain block where "render_paper f i p = Inr block"
    using render_paper_total[of p f i] by auto
  with Cons show ?case by (simp add: bind_err_def)
qed

lemma generate_html_total:
  assumes "\<forall>p \<in> set (concat (map papers inp)).
             updated p \<noteq> None \<and> None \<notin> set (authors p) \<and> None \<notin> set (categories p)"
  shows "\<exists>doc. generate_html f now inp = Inr doc"
proof -
  from assms set_merge_papers[of inp]
  have m: "\<forall>p \<in> set (merge_papers inp).
             updated p \<noteq> None \<and> None \<notin> set (authors p) \<and> None \<notin> set (categories p)"
    by blast
  then have "\<forall>p \<in> set (merge_papers inp). updated p \<noteq> None" by blast
  from sort_by_updated_props[OF this] obtain out where
    out: "sort_by_updated (merge_papers inp) = Inr out" "mset out = mset (merge_papers inp)"
    by blast
  from out(2) have "set out = set (merge_papers inp)" by (metis set_mset_mset)
  with m have "\<forall>p \<in> set out. None \<notin> set (authors p) \<and> None \<notin> set (categories p)"
    by blast
  from render_papers_total[OF this, of f 0 html_head] obtain html where
    "render_papers f 0 out html_head = Inr html"
    by blast
  with out(1) show ?thesis
    by (simp add: generate_html_def aggregate_def bind_err_def)
qed

section \<open>Two feeds the script handles badly\<close>

lemma py_strip_words:
  "py_strip ''Dated'' = ''Dated''" "py_strip ''Undated'' = ''Undated''"
  "py_strip ''Injected'' = ''Injected''"
  by code_simp+

lemma dated_entry_parsed: "parse_entry dated_entry = Inr (Some dated_record)"
  by (simp add: parse_entry_def dated_entry_def dated_record_def find_elem_def findall_def
      get_attr_def atom_def author_names_def bind_err_def id_text_def derive_arxiv_id_def
      py_in_def sublist_code py_split_def py_last_def text_strip_def text_or_empty_def
      py_strip_words)

lemma undated_entry_parsed: "parse_entry undated_entry = Inr (Some undated_record)"
  by (simp add: parse_entry_def undated_entry_def undated_record_def find_elem_def findall_def
      get_attr_def atom_def author_names_def bind_err_def id_text_def derive_arxiv_id_def
      py_in_def sublist_code py_split_def py_last_def text_strip_def text_or_empty_def
      py_strip_words)

lemma injected_entry_parsed: "parse_entry injected_entry = Inr (Some injected_record)"
  by (simp add: parse_entry_def injected_entry_def injected_record_def find_elem_def findall_def
      get_attr_def atom_def author_names_def bind_err_def id_text_def derive_arxiv_id_def
      py_in_def sublist_code py_split_def py_last_def text_strip_def text_or_empty_def
      py_strip_words)

lemma undated_feed_parsed:
  "parse_atom_feed (\<lambda>x. Inr (sample_root [dated_entry, undated_entry])) undated_feed_xml =
     [dated_record, undated_record]"
proof -
  have "findall (atom ''entry'') (sample_root [dated_entry, undated_entry]) =
      [dated_entry, undated_entry]"
    by (rule sample_root_entries) (simp add: dated_entry_def undated_entry_def)
  then show ?thesis
    by (simp add: parse_atom_feed_def bind_err_def MAX_PAPERS_PER_AUTHOR_def
        dated_entry_parsed undated_entry_parsed)
qed

lemma injected_feed_parsed:
  "parse_atom_feed (\<lambda>x. Inr (sample_root [injected_entry])) injected_feed_xml =
     [injected_record]"
proof -
  have "findall (atom ''entry'') (sample_root [injected_entry]) = [injected_entry]"
    by (rule sample_root_entries) (simp add: injected_entry_def)
  then show ?thesis
    by (simp add: parse_atom_feed_def bind_err_def MAX_PAPERS_PER_AUTHOR_def injected_entry_parsed)
qed

lemma undated_ids:
  "arxiv_id dated_record = Some ''2401.00001v2''" "arxiv_id undated_record = Some ''2401.00003v1''"
  "updated undated_record = None"
  by (simp_all add: dated_record_def undated_record_def)

lemma undated_merge:
  "merge_papers [\<lparr>author = a, papers = [dated_record, undated_record]\<rparr>] =
     [dated_record, undated_record]"
  by (simp add: merge_papers_def merge_step_def is_seen_def mark_seen_def undated_ids)

lemma undated_merge_thrice:
  "merge_papers (map (\<lambda>a. \<lparr>author = a, papers = [dated_record, undated_record]\<rparr>) AUTHORS) =
     [dated_record, undated_record]"
  by (simp add: AUTHORS_def merge_papers_def merge_step_def is_seen_def mark_seen_def undated_ids)

lemma undated_sort: "sort_by_updated [dated_record, undated_record] = Inl TypeError"
  by (simp add: sort_by_updated_def undated_ids)

lemma injected_date:
  "format_date sample_fromisoformat (Some ''<script>alert(1)</script>'') =
     Some ''<script>alert(1)</script>''"
  by (simp add: format_date_def bind_err_def py_replace_def sample_fromisoformat_def)

lemma str_nat_0: "str_nat 0 = ''0''"
  by code_simp

lemma injected_rendered:
  "render_paper sample_fromisoformat 0 injected_record = Inr injected_block"
  by (simp add: render_paper_def injected_record_def injected_block_def py_join_def
      bind_err_def injected_date fmt_value_def str_nat_0)

lemma injected_aggregate:
  "aggregate [\<lparr>author = a, papers = [injected_record]\<rparr>] = Inr [injected_record]"
proof -
  have "arxiv_id injected_record = Some ''2401.00004v1''"
    by (simp add: injected_record_def)
  then show ?thesis
    by (simp add: aggregate_def merge_papers_def merge_step_def is_seen_def sort_by_updated_def)
qed


section \<open>The aggregated sequence\<close>



text \<open>
  When every record has a string as its \<^verbatim>\<open>updated\<close> value, the sort succeeds and its
  result is a rearrangement of the merged sequence in which the keys descend in the
  lexicographic order of strings; records with equal keys keep the order they had in the
  merged sequence; and behind a record whose key is the empty string there are only
  records whose key is the empty string.
\<close>

lemma sorted_stable_on_string_keys:
  assumes "\<forall>p \<in> set (concat (map papers inp)). updated p \<noteq> None"
  shows "\<exists>out. aggregate inp = Inr out
      \<and> mset out = mset (merge_papers inp)
      \<and> sorted_wrt (\<lambda>a b. \<exists>x y. updated a = Some x \<and> updated b = Some y \<and> y \<le> x) out
      \<and> (\<forall>k. filter (\<lambda>p. updated p = k) out = filter (\<lambda>p. updated p = k) (merge_papers inp))
      \<and> (\<forall>i j. i < j \<and> j < length out \<and> updated (out ! i) = Some [] \<longrightarrow> updated (out ! j) = Some [])"
proof -
  from assms set_merge_papers[of inp]
  have all: "\<forall>p \<in> set (merge_papers inp). updated p \<noteq> None" by blast
  from sort_by_updated_props[OF all] obtain out where out:
    "sort_by_updated (merge_papers inp) = Inr out"
    "mset out = mset (merge_papers inp)"
    "sorted_wrt (\<lambda>a b. updated_key b \<le> updated_key a) out"
    "\<forall>k. filter (\<lambda>p. updated p = k) out = filter (\<lambda>p. updated p = k) (merge_papers inp)"
    by blast
  from out(2) have "set out = set (merge_papers inp)" by (metis set_mset_mset)
  with all have strs: "\<forall>p \<in> set out. updated p \<noteq> None" by simp
  have srt: "sorted_wrt (\<lambda>a b. \<exists>x y. updated a = Some x \<and> updated b = Some y \<and> y \<le> x) out"
    using out(3)
  proof (rule sorted_wrt_mono_rel[rotated])
    fix a b assume "a \<in> set out" "b \<in> set out" "updated_key b \<le> updated_key a"
    moreover from strs \<open>a \<in> set out\<close> obtain x where "updated a = Some x" by auto
    moreover from strs \<open>b \<in> set out\<close> obtain y where "updated b = Some y" by auto
    ultimately show "\<exists>x y. updated a = Some x \<and> updated b = Some y \<and> y \<le> x"
      by (simp add: updated_key_def)
  qed
  have last: "updated (out ! j) = Some []" if "i < j" "j < length out" "updated (out ! i) = Some []" for i j
  proof -
    from that have "updated_key (out ! i) = []" by (simp add: updated_key_def)
    from empty_key_last[OF out(3) that(1,2) this] have "updated_key (out ! j) = []" .
    moreover from strs that(2) have "updated (out ! j) \<noteq> None" by simp
    ultimately show ?thesis by (auto simp: updated_key_def)
  qed
  from out(1,2,4) srt last show ?thesis
    unfolding aggregate_def by blast
qed

lemma sorted_stable_sample:
  "list_all (\<lambda>p. updated p \<noteq> None) (concat (map papers sample_feeds))
   \<and> aggregate sample_feeds =
     Inr [sample_paper ''P2'' (Some ''9901.2'') ''2024-01-05'',
      sample_paper ''P4'' None ''2024-01-05'',
      sample_paper ''P4'' None ''2024-01-05'',
      sample_paper ''P1'' (Some ''9901.1'') ''2024-01-02'',
      sample_paper ''P3'' (Some ''9901.3'') ''2024-01-01'']
   \<and> (\<exists>out. aggregate sample_feeds = Inr out \<and> mset out = mset (merge_papers sample_feeds))"
proof -
  have h: "\<forall>p \<in> set (concat (map papers sample_feeds)). updated p \<noteq> None"
    by (simp add: sample_feeds_def sample_paper_def)
  have "\<exists>out. aggregate sample_feeds = Inr out \<and> mset out = mset (merge_papers sample_feeds)"
    using sorted_stable_on_string_keys[OF h] by blast
  with h sample_aggregate show ?thesis
    by (simp add: list_all_iff)
qed

text \<open>
  C2. The aggregated sequence is to be sorted by the raw \<^verbatim>\<open>updated\<close> string, descending
  and stable, for every input. The script does not get there for a feed that has an
  entry with an empty \<^verbatim>\<open>updated\<close> element beside another entry: the parser puts an
  empty string where the element is missing and \<^verbatim>\<open>None\<close> where it is empty, the sort
  compares \<^verbatim>\<open>None\<close> with a string and raises \<^verbatim>\<open>TypeError\<close>, and neither
  \<^verbatim>\<open>generate_html\<close> nor \<^verbatim>\<open>main\<close> catches it, so no page is written.
\<close>

theorem sort_raises_on_empty_updated:
  "parse_atom_feed (\<lambda>x. Inr (sample_root [dated_entry, undated_entry])) undated_feed_xml =
     [dated_record, undated_record]
   \<and> updated undated_record = None
   \<and> aggregate [\<lparr>author = sample_author ''a'', papers = [dated_record, undated_record]\<rparr>] =
       Inl TypeError
   \<and> generate_html sample_fromisoformat sample_now
       [\<lparr>author = sample_author ''a'', papers = [dated_record, undated_record]\<rparr>] = Inl TypeError
   \<and> main (\<lambda>u. Some undated_feed_xml) (\<lambda>x. Inr (sample_root [dated_entry, undated_entry]))
       sample_fromisoformat sample_now = Inl TypeError"
proof -
  have a: "aggregate [\<lparr>author = sample_author ''a'', papers = [dated_record, undated_record]\<rparr>] =
       Inl TypeError"
    by (simp only: aggregate_def undated_merge undated_sort)
  then have g: "generate_html sample_fromisoformat sample_now
       [\<lparr>author = sample_author ''a'', papers = [dated_record, undated_record]\<rparr>] = Inl TypeError"
    by (simp add: generate_html_def bind_err_def)
  have x: "undated_feed_xml \<noteq> []"
    by (simp add: undated_feed_xml_def)
  have "map (author_papers (\<lambda>u. Some undated_feed_xml)
            (\<lambda>x. Inr (sample_root [dated_entry, undated_entry]))) AUTHORS =
        map (\<lambda>a. \<lparr>author = a, papers = [dated_record, undated_record]\<rparr>) AUTHORS"
    by (simp add: author_papers_def fetch_author_feed_def x undated_feed_parsed)
  then have "aggregate (map (author_papers (\<lambda>u. Some undated_feed_xml)
            (\<lambda>x. Inr (sample_root [dated_entry, undated_entry]))) AUTHORS) = Inl TypeError"
    by (simp only: aggregate_def undated_merge_thrice undated_sort)
  then have m: "main (\<lambda>u. Some undated_feed_xml) (\<lambda>x. Inr (sample_root [dated_entry, undated_entry]))
       sample_fromisoformat sample_now = Inl TypeError"
    by (simp add: main_def generate_html_def bind_err_def)
  from undated_feed_parsed undated_ids(3) a g m show ?thesis
    by (simp only: simp_thms)
qed

section \<open>The identifier of a record\<close>

text \<open>
  C6. A record the parser makes carries the text of the entry's id element as its URL.
  When that URL contains \<^verbatim>\<open>/abs/\<close>, the identifier is what follows an occurrence of the
  marker, namely the last piece of the split, which has no further occurrence; when it
  does not, the identifier is \<^verbatim>\<open>None\<close>.
\<close>

theorem arxiv_id_after_marker:
  assumes "parse_entry e = Inr (Some p)"
  shows "(\<exists>ie. find_elem (atom ''id'') e = Some ie \<and> etext ie = Some (url p))
    \<and> (py_in ''/abs/'' (url p) \<longrightarrow>
          (\<exists>pre s. url p = pre @ ''/abs/'' @ s \<and> arxiv_id p = Some s \<and> \<not> py_in ''/abs/'' s))
    \<and> (\<not> py_in ''/abs/'' (url p) \<longrightarrow> arxiv_id p = None)"
proof -
  from parse_entry_Some[OF assms] obtain ie where
    ie: "find_elem (atom ''id'') e = Some ie" "etext ie = Some (url p)"
    and d: "derive_arxiv_id (url p) = Inr (arxiv_id p)"
    by blast
  have "\<exists>pre s. url p = pre @ ''/abs/'' @ s \<and> arxiv_id p = Some s \<and> \<not> py_in ''/abs/'' s"
    if "py_in ''/abs/'' (url p)"
    using derive_arxiv_id_marker[OF that] d by auto
  moreover have "arxiv_id p = None" if "\<not> py_in ''/abs/'' (url p)"
    using derive_arxiv_id_no_marker[OF that] d by simp
  ultimately show ?thesis using ie by blast
qed

theorem arxiv_id_after_marker_witness:
  "parse_entry (sample_entry ''Title'' ''http://arxiv.org/abs/2401.00001v2'') =
     Inr (Some (sample_record ''Title'' ''http://arxiv.org/abs/2401.00001v2'' (Some ''2401.00001v2'')))
   \<and> py_in ''/abs/'' ''http://arxiv.org/abs/2401.00001v2''
   \<and> (\<exists>pre. ''http://arxiv.org/abs/2401.00001v2'' = pre @ ''/abs/'' @ ''2401.00001v2'')
   \<and> \<not> py_in ''/abs/'' ''2401.00001v2''"
  using arxiv_id_after_marker[OF sample_entry_parsed]
  by (simp add: sample_record_def sample_entry_parsed py_in_def sublist_code)

text \<open>
  C10, as the script has it. The identifier of a record whose URL ends with \<^verbatim>\<open>/abs/\<close>
  is the empty string provided the text before that marker does not itself end with
  \<^verbatim>\<open>/abs\<close> (the split takes occurrences from the left, and an occurrence that overlaps
  the final one uses up its first character). A record whose identifier is the empty
  string is treated as one whose identifier is \<^verbatim>\<open>None\<close>: the merge loop appends it and
  leaves the set of seen identifiers as it was, every such record of the input is in the
  merged sequence, and it is rendered exactly as with \<^verbatim>\<open>None\<close>, without a badge.
\<close>

theorem empty_id_is_absent:
  "(parse_entry e = Inr (Some p) \<and> url p = pre @ ''/abs/'' \<and> \<not> suffix ''/abs'' pre
      \<longrightarrow> arxiv_id p = Some [])
   \<and> (arxiv_id q = Some [] \<or> arxiv_id q = None \<longrightarrow>
        merge_step q st = \<lparr>all_papers = all_papers st @ [q], seen_arxiv_ids = seen_arxiv_ids st\<rparr>)
   \<and> filter (\<lambda>p. arxiv_id p = Some []) (merge_papers inp) =
       filter (\<lambda>p. arxiv_id p = Some []) (concat (map papers inp))
   \<and> render_paper f idx (q\<lparr>arxiv_id := Some []\<rparr>) = render_paper f idx (q\<lparr>arxiv_id := None\<rparr>)"
proof -
  have 1: "arxiv_id p = Some []"
    if "parse_entry e = Inr (Some p)" "url p = pre @ ''/abs/''" "\<not> suffix ''/abs'' pre"
  proof -
    from parse_entry_Some[OF that(1)] have "derive_arxiv_id (url p) = Inr (arxiv_id p)"
      by blast
    with derive_arxiv_id_trailing[OF that(3)] that(2) show ?thesis by simp
  qed
  have 2: "merge_step q st = \<lparr>all_papers = all_papers st @ [q], seen_arxiv_ids = seen_arxiv_ids st\<rparr>"
    if "arxiv_id q = Some [] \<or> arxiv_id q = None"
    using that by (intro merge_step_falsy) (auto simp: truthy_def)
  have "filter (\<lambda>p. arxiv_id p = Some []) (filter (\<lambda>p. \<not> truthy (arxiv_id p)) (merge_papers inp)) =
        filter (\<lambda>p. arxiv_id p = Some []) (filter (\<lambda>p. \<not> truthy (arxiv_id p)) (concat (map papers inp)))"
    using merge_papers_props[of inp] by simp
  moreover have "(arxiv_id p = Some [] \<and> \<not> truthy (arxiv_id p)) = (arxiv_id p = Some [])" for p :: paper
    by (auto simp: truthy_def)
  ultimately have 3: "filter (\<lambda>p. arxiv_id p = Some []) (merge_papers inp) =
       filter (\<lambda>p. arxiv_id p = Some []) (concat (map papers inp))"
    by (simp add: conj_commute)
  have 4: "render_paper f idx (q\<lparr>arxiv_id := Some []\<rparr>) = render_paper f idx (q\<lparr>arxiv_id := None\<rparr>)"
    by (simp add: render_paper_def)
  from 1 2 3 4 show ?thesis by blast
qed

theorem empty_id_is_absent_witness:
  "parse_entry (sample_entry ''Title'' ''http://arxiv.org/abs/'') =
     Inr (Some (sample_record ''Title'' ''http://arxiv.org/abs/'' (Some [])))
   \<and> \<not> suffix ''/abs'' ''http://arxiv.org''
   \<and> arxiv_id (sample_record ''Title'' ''http://arxiv.org/abs/'' (Some [])) = Some []
   \<and> merge_step (sample_record ''Title'' ''http://arxiv.org/abs/'' (Some []))
        \<lparr>all_papers = [sample_record ''Title'' ''http://arxiv.org/abs/'' (Some [])], seen_arxiv_ids = {}\<rparr> =
      \<lparr>all_papers = [sample_record ''Title'' ''http://arxiv.org/abs/'' (Some []),
                     sample_record ''Title'' ''http://arxiv.org/abs/'' (Some [])],
       seen_arxiv_ids = {}\<rparr>"
proof -
  define r where "r = sample_record ''Title'' ''http://arxiv.org/abs/'' (Some [])"
  have u: "url r = ''http://arxiv.org'' @ ''/abs/''" and n: "\<not> suffix ''/abs'' ''http://arxiv.org''"
    by (simp_all add: r_def sample_record_def suffix_def)
  have p: "parse_entry (sample_entry ''Title'' ''http://arxiv.org/abs/'') = Inr (Some r)"
    unfolding r_def by (rule sample_entry_trailing)
  from empty_id_is_absent[of "sample_entry ''Title'' ''http://arxiv.org/abs/''" r "''http://arxiv.org''"
      r "\<lparr>all_papers = [r], seen_arxiv_ids = {}\<rparr>"] p u n
  have "arxiv_id r = Some []"
    and "merge_step r \<lparr>all_papers = [r], seen_arxiv_ids = {}\<rparr> = \<lparr>all_papers = [r, r], seen_arxiv_ids = {}\<rparr>"
    by simp_all
  with p n show ?thesis unfolding r_def by simp
qed

text \<open>
  The URL \<^verbatim>\<open>http://arxiv.org/abs/abs/\<close> ends with the marker, and its identifier is
  \<^verbatim>\<open>abs/\<close>, not the empty string.
\<close>

theorem empty_id_counterexample:
  "suffix ''/abs/'' ''http://arxiv.org/abs/abs/''
   \<and> derive_arxiv_id ''http://arxiv.org/abs/abs/'' = Inr (Some ''abs/'')"
  by (simp add: suffix_def derive_arxiv_id_def py_in_def sublist_code py_split_def py_last_def bind_err_def)

section \<open>The feed address\<close>

text \<open>
  C5, as the script has it. For an author of type \<^verbatim>\<open>orcid\<close> the identifier put into
  \<^verbatim>\<open>https://arxiv.org/a/<id>.atom2\<close> is the configured one with every occurrence of
  \<^verbatim>\<open>https://orcid.org/\<close> and then every occurrence of \<^verbatim>\<open>http://orcid.org/\<close> removed;
  when the configured identifier is a text free of both, alone or behind one of these two
  prefixes, that is this text. For every other type the configured identifier is put in
  unchanged.
\<close>

theorem feed_url_orcid:
  "(author_type a = ''orcid'' \<longrightarrow>
      feed_url a = ''https://arxiv.org/a/'' @
        py_replace ''http://orcid.org/'' [] (py_replace ''https://orcid.org/'' [] (author_id a)) @
        ''.atom2'')
   \<and> (author_type a = ''orcid'' \<and> \<not> py_in ''https://orcid.org/'' r \<and> \<not> py_in ''http://orcid.org/'' r
        \<and> (author_id a = r \<or> author_id a = ''https://orcid.org/'' @ r \<or> author_id a = ''http://orcid.org/'' @ r)
        \<longrightarrow> feed_url a = ''https://arxiv.org/a/'' @ r @ ''.atom2'')
   \<and> (author_type a \<noteq> ''orcid'' \<longrightarrow> feed_url a = ''https://arxiv.org/a/'' @ author_id a @ ''.atom2'')"
proof -
  have 1: "author_type a = ''orcid'' \<Longrightarrow>
      feed_url a = ''https://arxiv.org/a/'' @
        py_replace ''http://orcid.org/'' [] (py_replace ''https://orcid.org/'' [] (author_id a)) @
        ''.atom2''"
    by (simp add: feed_url_def)
  have 2: "feed_url a = ''https://arxiv.org/a/'' @ r @ ''.atom2''"
    if "author_type a = ''orcid''" "\<not> py_in ''https://orcid.org/'' r" "\<not> py_in ''http://orcid.org/'' r"
      "author_id a = r \<or> author_id a = ''https://orcid.org/'' @ r \<or> author_id a = ''http://orcid.org/'' @ r"
  proof -
    from that(2,3) have n: "\<not> sublist ''https://orcid.org/'' r" "\<not> sublist ''http://orcid.org/'' r"
      by (simp_all add: py_in_def)
    have "py_replace ''http://orcid.org/'' [] (py_replace ''https://orcid.org/'' [] (author_id a)) = r"
      using that(4) strip_orcid_plain[OF n] strip_orcid_https[OF n] strip_orcid_http[OF n]
      by presburger
    with 1[OF that(1)] show ?thesis by (simp only:)
  qed
  have 3: "author_type a \<noteq> ''orcid'' \<Longrightarrow> feed_url a = ''https://arxiv.org/a/'' @ author_id a @ ''.atom2''"
    by (simp add: feed_url_def)
  from 1 2 3 show ?thesis by blast
qed

theorem feed_url_orcid_witness:
  "feed_url \<lparr>author_name = ''Dan Loughran'', author_id = ''https://orcid.org/0000-0001-5892-1564'', author_type = ''orcid''\<rparr>
     = ''https://arxiv.org/a/0000-0001-5892-1564.atom2''
   \<and> \<not> py_in ''https://orcid.org/'' ''0000-0001-5892-1564''
   \<and> \<not> py_in ''http://orcid.org/'' ''0000-0001-5892-1564''
   \<and> feed_url \<lparr>author_name = ''Alex Bartel'', author_id = ''bartel_a_1'', author_type = ''arxiv''\<rparr>
     = ''https://arxiv.org/a/bartel_a_1.atom2''"
proof -
  define a where "a = \<lparr>author_name = ''Dan Loughran'', author_id = ''https://orcid.org/0000-0001-5892-1564'', author_type = ''orcid''\<rparr>"
  define b where "b = \<lparr>author_name = ''Alex Bartel'', author_id = ''bartel_a_1'', author_type = ''arxiv''\<rparr>"
  have n: "\<not> py_in ''https://orcid.org/'' ''0000-0001-5892-1564''"
      "\<not> py_in ''http://orcid.org/'' ''0000-0001-5892-1564''"
    by (simp_all add: py_in_def sublist_code)
  have ta: "author_type a = ''orcid''"
    and ia: "author_id a = ''https://orcid.org/'' @ ''0000-0001-5892-1564''"
    by (simp_all add: a_def)
  have tb: "author_type b \<noteq> ''orcid''" and ib: "author_id b = ''bartel_a_1''"
    by (simp_all add: b_def)
  from feed_url_orcid[of a "''0000-0001-5892-1564''"] ta ia n
  have "feed_url a = ''https://arxiv.org/a/'' @ ''0000-0001-5892-1564'' @ ''.atom2''"
    by blast
  moreover from feed_url_orcid[of b "[]"] tb ib
  have "feed_url b = ''https://arxiv.org/a/'' @ ''bartel_a_1'' @ ''.atom2''"
    by simp
  ultimately show ?thesis
    using n unfolding a_def b_def by simp
qed

text \<open>
  An identifier with \<^verbatim>\<open>https://orcid.org/\<close> in its middle has no prefix to strip, and
  the script removes the occurrence all the same.
\<close>

theorem feed_url_strips_prefix_counterexample:
  "feed_url \<lparr>author_name = ''D'', author_id = ''0000https://orcid.org/-0001'', author_type = ''orcid''\<rparr>
     = ''https://arxiv.org/a/0000-0001.atom2''
   \<and> ''https://arxiv.org/a/'' @ strip_orcid_prefix ''0000https://orcid.org/-0001'' @ ''.atom2''
     = ''https://arxiv.org/a/0000https://orcid.org/-0001.atom2''"
  by (simp add: feed_url_def py_replace_def strip_orcid_prefix_def)

section \<open>Dates\<close>



section \<open>The footer\<close>

text \<open>
  C8. A page that \<open>generate_html\<close> returns ends with the footer for the number of
  merged papers, and a page is returned whenever the records hold strings where the
  script joins and compares them. The footer reads the count followed by \<^verbatim>\<open>paper\<close> when the count is 1
  and by \<^verbatim>\<open>papers\<close> otherwise, then \<^verbatim>\<open>displayed\<close>: \<^verbatim>\<open>0 papers\<close>, \<^verbatim>\<open>1 paper\<close>,
  \<^verbatim>\<open>2 papers\<close>.
\<close>

theorem footer_plural:
  "(generate_html f now inp = Inr doc \<longrightarrow> suffix (footer now (length (merge_papers inp))) doc)
   \<and> ((\<forall>p \<in> set (concat (map papers inp)).
          updated p \<noteq> None \<and> None \<notin> set (authors p) \<and> None \<notin> set (categories p)) \<longrightarrow>
        (\<exists>page. generate_html f now inp = Inr page))
   \<and> footer now n = footer_open @ strftime_stamp now @ '' | '' @ str_nat n @
        (if n = 1 then '' paper'' else '' papers'') @ footer_close
   \<and> footer now 0 = footer_open @ strftime_stamp now @ '' | 0 papers'' @ footer_close
   \<and> footer now 1 = footer_open @ strftime_stamp now @ '' | 1 paper'' @ footer_close
   \<and> footer now 2 = footer_open @ strftime_stamp now @ '' | 2 papers'' @ footer_close
   \<and> prefix '' displayed</div>'' footer_close"
proof -
  have d: "str_nat 0 = ''0''" "str_nat 1 = ''1''" "str_nat 2 = ''2''"
    by code_simp+
  then have d': "str_nat (Suc 0) = ''1''" by simp
  have "footer now 0 = footer_open @ strftime_stamp now @ '' | 0 papers'' @ footer_close"
    and "footer now 1 = footer_open @ strftime_stamp now @ '' | 1 paper'' @ footer_close"
    and "footer now 2 = footer_open @ strftime_stamp now @ '' | 2 papers'' @ footer_close"
    by (simp_all add: footer_count d d')
  with generate_html_footer[of f now inp doc] footer_count[of now n] footer_close_starts
    generate_html_total[of inp f now]
  show ?thesis by (intro conjI impI) (simp_all only: simp_thms)
qed

theorem footer_plural_witness:
  "generate_html sample_fromisoformat sample_now [] =
     Inr (html_head @ no_results_html @ footer sample_now 0)
   \<and> length (merge_papers []) = 0
   \<and> suffix (footer_open @ strftime_stamp sample_now @ '' | 0 papers'' @ footer_close)
        (html_head @ no_results_html @ footer sample_now 0)
   \<and> length (merge_papers [\<lparr>author = sample_author ''a'', papers = [script_record]\<rparr>]) = 1
   \<and> (\<exists>page. generate_html sample_fromisoformat sample_now
          [\<lparr>author = sample_author ''a'', papers = [script_record]\<rparr>] = Inr page
        \<and> suffix (footer_open @ strftime_stamp sample_now @ '' | 1 paper'' @ footer_close) page)"
proof -
  have g: "generate_html sample_fromisoformat sample_now [] =
     Inr (html_head @ no_results_html @ footer sample_now 0)"
    by (rule generate_html_empty)
  have m: "length (merge_papers []) = 0"
    by (simp add: merge_papers_def)
  note fp = footer_plural[of sample_fromisoformat sample_now "[]"
      "html_head @ no_results_html @ footer sample_now 0" 0]
  from fp g have "suffix (footer sample_now (length (merge_papers [])))
      (html_head @ no_results_html @ footer sample_now 0)"
    by blast
  then have s: "suffix (footer sample_now 0) (html_head @ no_results_html @ footer sample_now 0)"
    by (simp only: m)
  from fp have f0: "footer sample_now 0 = footer_open @ strftime_stamp sample_now @ '' | 0 papers'' @ footer_close"
    by blast
  let ?inp = "[\<lparr>author = sample_author ''a'', papers = [script_record]\<rparr>]"
  have m1: "length (merge_papers ?inp) = 1"
    by (simp add: merge_papers_def merge_step_def is_seen_empty)
  have typed: "\<forall>p \<in> set (concat (map papers ?inp)).
          updated p \<noteq> None \<and> None \<notin> set (authors p) \<and> None \<notin> set (categories p)"
    by (simp add: script_record_def sample_record_def)
  obtain page where page: "generate_html sample_fromisoformat sample_now ?inp = Inr page"
    using footer_plural[where f = sample_fromisoformat and now = sample_now and inp = ?inp,
        THEN conjunct2, THEN conjunct1, THEN mp, OF typed]
    by blast
  from footer_plural[where f = sample_fromisoformat and now = sample_now and inp = ?inp
      and doc = page, THEN conjunct1, THEN mp, OF page]
  have "suffix (footer sample_now 1) page"
    by (simp only: m1)
  moreover from fp have "footer sample_now 1 = footer_open @ strftime_stamp sample_now @ '' | 1 paper'' @ footer_close"
    by blast
  ultimately have "suffix (footer_open @ strftime_stamp sample_now @ '' | 1 paper'' @ footer_close) page"
    by (simp only:)
  with page have "\<exists>page. generate_html sample_fromisoformat sample_now ?inp = Inr page
        \<and> suffix (footer_open @ strftime_stamp sample_now @ '' | 1 paper'' @ footer_close) page"
    by blast
  with s g m m1 f0 show ?thesis by (simp only: simp_thms)
qed

section \<open>The parser\<close>

text \<open>
  C4, as the script has it. The parser returns at most 20 records and its result depends
  on the first 20 entry elements of the feed only. When none of these entries makes the
  loop body raise, the records returned are, in feed order, exactly those of the entries
  among them that have both a title element and an id element. (When one of them raises,
  no record is returned: C9.)
\<close>

theorem parse_atom_feed_capped:
  assumes "fromstring x = Inr root"
  shows "length (parse_atom_feed fromstring x) \<le> MAX_PAPERS_PER_AUTHOR
    \<and> ((\<forall>e \<in> set (take MAX_PAPERS_PER_AUTHOR (findall (atom ''entry'') root)).
           \<forall>err. parse_entry e \<noteq> Inl err) \<longrightarrow>
         map (\<lambda>p. Inr (Some p)) (parse_atom_feed fromstring x) =
           map parse_entry
             (filter (\<lambda>e. find_elem (atom ''title'') e \<noteq> None \<and> find_elem (atom ''id'') e \<noteq> None)
                (take MAX_PAPERS_PER_AUTHOR (findall (atom ''entry'') root))))
    \<and> (\<forall>x' root'. fromstring x' = Inr root'
           \<and> take MAX_PAPERS_PER_AUTHOR (findall (atom ''entry'') root') =
               take MAX_PAPERS_PER_AUTHOR (findall (atom ''entry'') root)
           \<longrightarrow> parse_atom_feed fromstring x' = parse_atom_feed fromstring x)"
proof -
  let ?es = "take MAX_PAPERS_PER_AUTHOR (findall (atom ''entry'') root)"
  have 1: "length (parse_atom_feed fromstring x) \<le> MAX_PAPERS_PER_AUTHOR"
    by (rule parse_atom_feed_length)
  have 2: "map (\<lambda>p. Inr (Some p)) (parse_atom_feed fromstring x) =
           map parse_entry (filter (\<lambda>e. find_elem (atom ''title'') e \<noteq> None \<and> find_elem (atom ''id'') e \<noteq> None) ?es)"
    if "\<forall>e \<in> set ?es. \<forall>err. parse_entry e \<noteq> Inl err"
  proof -
    from parse_entries_ok[OF that, of "[]"] obtain ps where ps: "parse_entries ?es [] = Inr ps"
      by blast
    from parse_entries_acc[OF ps] have "map (\<lambda>p. Inr (Some p)) ps = map parse_entry (filter has_title_and_id ?es)"
      by simp
    moreover from ps assms have "parse_atom_feed fromstring x = ps"
      by (simp add: parse_atom_feed_root)
    ultimately show ?thesis by (simp only: has_title_and_id_eq)
  qed
  have 3: "parse_atom_feed fromstring x' = parse_atom_feed fromstring x"
    if "fromstring x' = Inr root'"
      "take MAX_PAPERS_PER_AUTHOR (findall (atom ''entry'') root') = ?es" for x' root'
    using that assms by (simp add: parse_atom_feed_root)
  from 1 2 3 show ?thesis by blast
qed

theorem parse_atom_feed_capped_witness:
  "parse_atom_feed (\<lambda>x. Inr (sample_root
       [sample_entry ''Title'' ''http://arxiv.org/abs/2401.00001v2'', idless_entry,
        sample_entry ''Title'' ''http://arxiv.org/abs/''])) ''<feed>...</feed>'' =
     [sample_record ''Title'' ''http://arxiv.org/abs/2401.00001v2'' (Some ''2401.00001v2''),
      sample_record ''Title'' ''http://arxiv.org/abs/'' (Some [])]
   \<and> list_all (\<lambda>e. \<not> isl (parse_entry e))
        (take MAX_PAPERS_PER_AUTHOR (findall (atom ''entry'') (sample_root
          [sample_entry ''Title'' ''http://arxiv.org/abs/2401.00001v2'', idless_entry,
           sample_entry ''Title'' ''http://arxiv.org/abs/''])))
   \<and> find_elem (atom ''id'') idless_entry = None
   \<and> length (parse_atom_feed (\<lambda>x. Inr (sample_root
       [sample_entry ''Title'' ''http://arxiv.org/abs/2401.00001v2'', idless_entry,
        sample_entry ''Title'' ''http://arxiv.org/abs/''])) ''<feed>...</feed>'') \<le> MAX_PAPERS_PER_AUTHOR
   \<and> length (parse_atom_feed (\<lambda>x. Inr (sample_root
       (replicate 21 (sample_entry ''Title'' ''http://arxiv.org/abs/2401.00001v2'')))) ''<feed>...</feed>'') = 20"
proof -
  define root where "root = sample_root
       [sample_entry ''Title'' ''http://arxiv.org/abs/2401.00001v2'', idless_entry,
        sample_entry ''Title'' ''http://arxiv.org/abs/'']"
  have es: "findall (atom ''entry'') root =
       [sample_entry ''Title'' ''http://arxiv.org/abs/2401.00001v2'', idless_entry,
        sample_entry ''Title'' ''http://arxiv.org/abs/'']"
    unfolding root_def
    by (rule sample_root_entries) (simp add: sample_entry_tag, simp add: idless_entry_def)
  have ok: "list_all (\<lambda>e. \<not> isl (parse_entry e)) (take MAX_PAPERS_PER_AUTHOR (findall (atom ''entry'') root))"
    by (simp add: es MAX_PAPERS_PER_AUTHOR_def sample_entry_parsed idless_entry_parsed sample_entry_trailing)
  have idl: "find_elem (atom ''id'') idless_entry = None"
    by (simp add: idless_entry_def find_elem_def atom_def)
  have "(\<lambda>x. Inr root) ''<feed>...</feed>'' = Inr root" by simp
  from parse_atom_feed_capped[of "\<lambda>x. Inr root" "''<feed>...</feed>''" root, OF this]
  have "length (parse_atom_feed (\<lambda>x. Inr root) ''<feed>...</feed>'') \<le> MAX_PAPERS_PER_AUTHOR"
    by blast
  with ok idl three_entries_parsed many_entries_parsed show ?thesis
    unfolding root_def by simp
qed

text \<open>
  A feed of one entry that has a title element and an id element, the title element being
  empty: the entry lacks neither, and the parser returns no record.
\<close>

theorem parse_atom_feed_capped_counterexample:
  "find_elem (atom ''title'') untitled_entry \<noteq> None
   \<and> find_elem (atom ''id'') untitled_entry \<noteq> None
   \<and> findall (atom ''entry'') (sample_root [untitled_entry]) = [untitled_entry]
   \<and> parse_atom_feed (\<lambda>x. Inr (sample_root [untitled_entry])) untitled_feed_xml = []"
proof -
  have es: "findall (atom ''entry'') (sample_root [untitled_entry]) = [untitled_entry]"
    by (rule sample_root_entries) (simp add: untitled_entry_def)
  then have "parse_atom_feed (\<lambda>x. Inr (sample_root [untitled_entry])) untitled_feed_xml = []"
    by (simp add: parse_atom_feed_def bind_err_def MAX_PAPERS_PER_AUTHOR_def untitled_entry_parsed)
  with es show ?thesis
    by (simp add: untitled_entry_def find_elem_def atom_def)
qed

text \<open>
  C9. When the loop body raises on one of the first 20 entries, the parser returns the
  empty list, whatever it had extracted before. The body raises on an entry with an id
  element and a title element whose text is \<^verbatim>\<open>None\<close>, and on every entry with an author
  element that has no name child, also an entry it would otherwise skip.
\<close>

theorem parse_error_discards_all:
  "(fromstring x = Inr root
      \<and> (\<exists>e \<in> set (take MAX_PAPERS_PER_AUTHOR (findall (atom ''entry'') root)).
            \<exists>err. parse_entry e = Inl err)
      \<longrightarrow> parse_atom_feed fromstring x = [])
   \<and> (find_elem (atom ''title'') e = Some t \<and> etext t = None
        \<and> find_elem (atom ''id'') e = Some ie \<and> etext ie = Some u
        \<and> author_names e = Inr names
      \<longrightarrow> parse_entry e = Inl AttributeError)
   \<and> ((\<exists>a \<in> set (findall (atom ''author'') e). find_elem (atom ''name'') a = None)
      \<longrightarrow> parse_entry e = Inl AttributeError)"
proof -
  have 1: "parse_atom_feed fromstring x = []"
    if "fromstring x = Inr root"
      "\<exists>e \<in> set (take MAX_PAPERS_PER_AUTHOR (findall (atom ''entry'') root)). \<exists>err. parse_entry e = Inl err"
  proof -
    from parse_entries_error[OF that(2), of "[]"] obtain err where
      "parse_entries (take MAX_PAPERS_PER_AUTHOR (findall (atom ''entry'') root)) [] = Inl err"
      by blast
    with that(1) show ?thesis by (simp add: parse_atom_feed_root)
  qed
  from 1 parse_entry_empty_title[of e t ie u names] parse_entry_missing_name[of e]
  show ?thesis by blast
qed

theorem parse_error_discards_all_witness:
  "parse_atom_feed (\<lambda>x. Inr (sample_root
       [sample_entry ''Title'' ''http://arxiv.org/abs/2401.00001v2''])) ''<feed>...</feed>'' =
     [sample_record ''Title'' ''http://arxiv.org/abs/2401.00001v2'' (Some ''2401.00001v2'')]
   \<and> parse_entry untitled_entry = Inl AttributeError
   \<and> parse_atom_feed (\<lambda>x. Inr (sample_root
       [sample_entry ''Title'' ''http://arxiv.org/abs/2401.00001v2'', untitled_entry])) ''<feed>...</feed>'' = []
   \<and> find_elem (atom ''title'') nameless_entry = None
   \<and> parse_entry nameless_entry = Inl AttributeError"
proof -
  define root where "root = sample_root
       [sample_entry ''Title'' ''http://arxiv.org/abs/2401.00001v2'', untitled_entry]"
  have es: "findall (atom ''entry'') root =
       [sample_entry ''Title'' ''http://arxiv.org/abs/2401.00001v2'', untitled_entry]"
    unfolding root_def
    by (rule sample_root_entries) (simp add: sample_entry_tag, simp add: untitled_entry_def)
  have bad: "\<exists>e \<in> set (take MAX_PAPERS_PER_AUTHOR (findall (atom ''entry'') root)).
            \<exists>err. parse_entry e = Inl err"
    by (simp add: es MAX_PAPERS_PER_AUTHOR_def untitled_entry_parsed)
  note inst = parse_error_discards_all[where fromstring = "\<lambda>x. Inr root" and x = "''<feed>...</feed>''"
      and root = root and e = nameless_entry]
  have nm: "\<exists>a \<in> set (findall (atom ''author'') nameless_entry). find_elem (atom ''name'') a = None"
    by (simp add: nameless_entry_def findall_def find_elem_def atom_def)
  have a: "parse_atom_feed (\<lambda>x. Inr root) ''<feed>...</feed>'' = []"
    by (rule inst[THEN conjunct1, THEN mp]) (intro conjI refl bad)
  have b: "parse_entry nameless_entry = Inl AttributeError"
    by (rule inst[THEN conjunct2, THEN conjunct2, THEN mp]) (rule nm)
  have c: "parse_atom_feed (\<lambda>x. Inr (sample_root
       [sample_entry ''Title'' ''http://arxiv.org/abs/2401.00001v2''])) ''<feed>...</feed>'' =
     [sample_record ''Title'' ''http://arxiv.org/abs/2401.00001v2'' (Some ''2401.00001v2'')]"
  proof -
    have "findall (atom ''entry'') (sample_root
       [sample_entry ''Title'' ''http://arxiv.org/abs/2401.00001v2'']) =
       [sample_entry ''Title'' ''http://arxiv.org/abs/2401.00001v2'']"
      by (rule sample_root_entries) (simp add: sample_entry_tag)
    then show ?thesis
      by (simp add: parse_atom_feed_def bind_err_def MAX_PAPERS_PER_AUTHOR_def sample_entry_parsed)
  qed
  have d: "find_elem (atom ''title'') nameless_entry = None"
    by (simp add: nameless_entry_def find_elem_def atom_def)
  from a b c d untitled_entry_parsed show ?thesis
    unfolding root_def by simp
qed

section \<open>Escaping\<close>

text \<open>
  In the block rendered for a paper, the title, the URL, the summary, the joined author
  names, the joined categories and the identifier of the badge stand as the value of
  \<open>escape\<close>: with the rest of the record fixed, the block is one fixed text, the
  escaped field, and another fixed text. The same holds for the whole page and the title
  of each aggregated paper. An escaped text has no \<^verbatim>\<open><\<close>, \<^verbatim>\<open>>\<close> or quote character in
  it, so it never contains \<^verbatim>\<open><script>\<close>; where a field has \<^verbatim>\<open><script>\<close> the escaped
  text has \<^verbatim>\<open>&lt;script&gt;\<close>.
\<close>

lemma listed_fields_escaped:
  "(render_paper f i p = Inr out \<longrightarrow>
      (\<exists>pre post. \<forall>t. render_paper f i (p\<lparr>title := t\<rparr>) = Inr (pre @ escape t @ post))
    \<and> (\<exists>pre post. \<forall>u. render_paper f i (p\<lparr>url := u\<rparr>) = Inr (pre @ escape u @ post))
    \<and> (\<exists>pre post. \<forall>s. render_paper f i (p\<lparr>summary := s\<rparr>) = Inr (pre @ escape s @ post))
    \<and> (\<exists>pre post. \<forall>as names. py_join '', '' as = Inr names \<longrightarrow>
           render_paper f i (p\<lparr>authors := as\<rparr>) = Inr (pre @ escape names @ post))
    \<and> (\<exists>pre post. \<forall>cs cats. cs \<noteq> [] \<and> py_join '', '' cs = Inr cats \<and> cats \<noteq> [] \<longrightarrow>
           render_paper f i (p\<lparr>categories := cs\<rparr>) = Inr (pre @ escape cats @ post))
    \<and> (\<exists>pre post. \<forall>a. a \<noteq> [] \<longrightarrow>
           render_paper f i (p\<lparr>arxiv_id := Some a\<rparr>) = Inr (pre @ escape a @ post)))
   \<and> (aggregate inp = Inr ps \<and> generate_html f now inp = Inr doc \<and> k < length ps \<longrightarrow>
        (\<exists>pre post. doc = pre @ escape (title (ps ! k)) @ post
           \<and> (\<forall>t inp'. aggregate inp' = Inr (ps[k := (ps ! k)\<lparr>title := t\<rparr>]) \<longrightarrow>
                 generate_html f now inp' = Inr (pre @ escape t @ post))))
   \<and> CHR ''<'' \<notin> set (escape s) \<and> CHR ''>'' \<notin> set (escape s)
   \<and> CHR 0x22 \<notin> set (escape s) \<and> CHR 0x27 \<notin> set (escape s)
   \<and> \<not> sublist ''<script>'' (escape s)
   \<and> escape (a @ ''<script>'' @ b) = escape a @ ''&lt;script&gt;'' @ escape b"
proof -
  have "escape (a @ ''<script>'' @ b) = escape a @ ''&lt;script&gt;'' @ escape b"
    by (simp only: escape_append escape_script)
  with render_paper_title[of f i p out] render_paper_url[of f i p out]
    render_paper_summary[of f i p out] render_paper_authors[of f i p out]
    render_paper_categories[of f i p out] render_paper_arxiv_id[of f i p out]
    generate_html_title[of inp ps f now doc k] escape_clean[of s] escape_no_script[of s]
  show ?thesis
    by (intro conjI impI) (simp_all only: simp_thms)
qed

lemma listed_fields_escaped_sample:
  "(\<exists>out. render_paper sample_fromisoformat 0 script_record = Inr out)
   \<and> title script_record = ''<script>alert(1)</script>''
   \<and> (\<exists>pre post. render_paper sample_fromisoformat 0 script_record =
         Inr (pre @ ''&lt;script&gt;alert(1)&lt;/script&gt;'' @ post))
   \<and> aggregate [\<lparr>author = sample_author ''a'', papers = [script_record]\<rparr>] = Inr [script_record]
   \<and> (\<exists>pre post. generate_html sample_fromisoformat sample_now
         [\<lparr>author = sample_author ''a'', papers = [script_record]\<rparr>] =
         Inr (pre @ ''&lt;script&gt;alert(1)&lt;/script&gt;'' @ post))"
proof -
  let ?inp = "[\<lparr>author = sample_author ''a'', papers = [script_record]\<rparr>]"
  from script_record_rendered obtain out where
    out: "render_paper sample_fromisoformat 0 script_record = Inr out"
    by blast
  from script_record_page obtain doc where
    doc: "generate_html sample_fromisoformat sample_now ?inp = Inr doc"
    by blast
  have t: "title script_record = ''<script>alert(1)</script>''"
    by (simp add: script_record_def sample_record_def)
  have e: "escape ''<script>alert(1)</script>'' = ''&lt;script&gt;alert(1)&lt;/script&gt;''"
    by (simp add: escape_chars esc_char_def)
  note inst = listed_fields_escaped[where f = sample_fromisoformat and i = 0 and p = script_record
      and out = out and inp = ?inp and ps = "[script_record]" and now = sample_now
      and doc = doc and k = 0]
  from inst[THEN conjunct1, THEN mp, OF out, THEN conjunct1] obtain pre post where
    "\<forall>t. render_paper sample_fromisoformat 0 (script_record\<lparr>title := t\<rparr>) = Inr (pre @ escape t @ post)"
    by blast
  then have "render_paper sample_fromisoformat 0 (script_record\<lparr>title := title script_record\<rparr>) =
      Inr (pre @ escape (title script_record) @ post)"
    by blast
  moreover have "script_record\<lparr>title := title script_record\<rparr> = script_record"
    by simp
  ultimately have "render_paper sample_fromisoformat 0 script_record =
      Inr (pre @ ''&lt;script&gt;alert(1)&lt;/script&gt;'' @ post)"
    by (simp only: t e)
  then have 1: "\<exists>pre post. render_paper sample_fromisoformat 0 script_record =
         Inr (pre @ ''&lt;script&gt;alert(1)&lt;/script&gt;'' @ post)"
    by blast
  have "aggregate ?inp = Inr [script_record] \<and> generate_html sample_fromisoformat sample_now ?inp = Inr doc
      \<and> (0::nat) < length [script_record]"
    using script_record_aggregate doc by simp
  from inst[THEN conjunct2, THEN conjunct1, THEN mp, OF this] obtain pre post where
    "doc = pre @ escape (title ([script_record] ! 0)) @ post"
    by blast
  then have "doc = pre @ ''&lt;script&gt;alert(1)&lt;/script&gt;'' @ post"
    by (simp only: nth_Cons_0 t e)
  with doc have 2: "\<exists>pre post. generate_html sample_fromisoformat sample_now ?inp =
         Inr (pre @ ''&lt;script&gt;alert(1)&lt;/script&gt;'' @ post)"
    by blast
  from out t 1 2 script_record_aggregate show ?thesis by blast
qed

text \<open>
  C3. Every string of the feed is to pass through \<open>escape\<close> before it is put into the
  page. The script escapes the title, the authors, the URL, the categories, the summary
  and the identifier, and not the \<^verbatim>\<open>published\<close> string: it puts the value of
  \<open>format_date\<close> into the page as it is, and \<open>format_date\<close> returns a text it
  cannot parse unchanged. For a feed whose \<^verbatim>\<open>published\<close> element holds
  \<^verbatim>\<open><script>alert(1)</script>\<close> the page contains this markup, where \<open>escape\<close> would
  have left none.
\<close>

theorem published_not_escaped:
  "parse_atom_feed (\<lambda>x. Inr (sample_root [injected_entry])) injected_feed_xml = [injected_record]
   \<and> published injected_record = Some ''<script>alert(1)</script>''
   \<and> format_date sample_fromisoformat (Some ''<script>alert(1)</script>'') =
       Some ''<script>alert(1)</script>''
   \<and> render_paper sample_fromisoformat 0 injected_record =
       Inr (paper_open @ escape ''http://arxiv.org/abs/2401.00004v1'' @ paper_after_url @
            escape ''Injected'' @ paper_after_title @ escape [] @ paper_after_authors @
            ''<script>alert(1)</script>'' @ span_close @
            id_badge_open @ escape ''2401.00004v1'' @ span_close @
            abstract_open @ ''abstract-0'' @ abstract_after_id @ escape [] @
            abstract_after_summary @ ''abstract-0'' @ paper_close)
   \<and> generate_html sample_fromisoformat sample_now
         [\<lparr>author = sample_author ''a'', papers = [injected_record]\<rparr>] =
       Inr (html_head @ injected_block @ footer sample_now 1)
   \<and> sublist ''<script>alert(1)</script>'' (html_head @ injected_block @ footer sample_now 1)
   \<and> \<not> sublist ''<script>alert(1)</script>'' (escape ''<script>alert(1)</script>'')"
proof -
  have p: "published injected_record = Some ''<script>alert(1)</script>''"
    by (simp add: injected_record_def)
  have r: "render_paper sample_fromisoformat 0 injected_record =
       Inr (paper_open @ escape ''http://arxiv.org/abs/2401.00004v1'' @ paper_after_url @
            escape ''Injected'' @ paper_after_title @ escape [] @ paper_after_authors @
            ''<script>alert(1)</script>'' @ span_close @
            id_badge_open @ escape ''2401.00004v1'' @ span_close @
            abstract_open @ ''abstract-0'' @ abstract_after_id @ escape [] @
            abstract_after_summary @ ''abstract-0'' @ paper_close)"
    using injected_rendered by (simp only: injected_block_def)
  have g: "generate_html sample_fromisoformat sample_now
         [\<lparr>author = sample_author ''a'', papers = [injected_record]\<rparr>] =
       Inr (html_head @ injected_block @ footer sample_now 1)"
    by (simp add: generate_html_def injected_aggregate bind_err_def injected_rendered)
  have "sublist ''<script>alert(1)</script>''
      ((paper_open @ escape ''http://arxiv.org/abs/2401.00004v1'' @ paper_after_url @
            escape ''Injected'' @ paper_after_title @ escape [] @ paper_after_authors) @
       ''<script>alert(1)</script>'' @
       (span_close @ id_badge_open @ escape ''2401.00004v1'' @ span_close @
            abstract_open @ ''abstract-0'' @ abstract_after_id @ escape [] @
            abstract_after_summary @ ''abstract-0'' @ paper_close))"
    by (rule sublist_appendI)
  then have "sublist ''<script>alert(1)</script>'' injected_block"
    by (simp only: injected_block_def append_assoc)
  then have "sublist ''<script>alert(1)</script>'' (html_head @ injected_block @ footer sample_now 1)"
    by (meson sublist_append_leftI sublist_append_rightI sublist_order.order_trans)
  moreover have "\<not> sublist ''<script>alert(1)</script>'' (escape ''<script>alert(1)</script>'')"
  proof
    assume "sublist ''<script>alert(1)</script>'' (escape ''<script>alert(1)</script>'')"
    then have "set ''<script>alert(1)</script>'' \<subseteq> set (escape ''<script>alert(1)</script>'')"
      by (rule set_mono_sublist)
    with escape_clean[of "''<script>alert(1)</script>''"] show False by simp
  qed
  ultimately show ?thesis
    using injected_feed_parsed p injected_date r g by (simp only: simp_thms)
qed


end
